theory Spec2Isabelle
  imports Main "HOL-Library.Sublist" "HOL-Library.Multiset"
begin

section \<open>Text\<close>

text \<open>
  A JavaScript string is a sequence of UTF-16 code units. The model keeps them as
  numbers, so that \<open>trim\<close> can strip exactly the code units that ECMAScript calls
  white space or line terminators. \<open>js\<close> turns a literal of the theory into such
  a sequence.
\<close>

type_synonym jsstring = "nat list"

definition js :: "string \<Rightarrow> jsstring" where
  "js s = map of_char s"

definition isWhiteSpace :: "nat \<Rightarrow> bool" where
  "isWhiteSpace c \<longleftrightarrow>
     c \<in> {9, 10, 11, 12, 13, 32, 160, 5760, 8232, 8233, 8239, 8287, 12288, 65279}
     \<or> (8192 \<le> c \<and> c \<le> 8202)"

definition trim :: "jsstring \<Rightarrow> jsstring" where
  "trim s = rev (dropWhile isWhiteSpace (rev (dropWhile isWhiteSpace s)))"

definition startsWith :: "jsstring \<Rightarrow> jsstring \<Rightarrow> bool" where
  "startsWith s t = prefix t s"

fun js_includes :: "jsstring \<Rightarrow> jsstring \<Rightarrow> bool" where
  "js_includes [] t = (t = [])"
| "js_includes (c # s) t = (prefix t (c # s) \<or> js_includes s t)"

definition HOMEPAGE :: jsstring where
  "HOMEPAGE = js ''https://legacy-of-the-dragonborn.fandom.com''"

section \<open>The document tree and the queries of the script\<close>

text \<open>
  \<open>cheerio.load\<close> never throws; it turns any text into a tree. A document is the
  list of nodes below the root. An element carries its tag name, the tokens of its
  \<open>class\<close> attribute, its \<open>href\<close> attribute when it has one, and its child nodes.
\<close>

datatype node =
    Element jsstring "jsstring list" "jsstring option" "node list"
  | Text jsstring
  | Comment jsstring

type_synonym document = "node list"

fun isTag :: "node \<Rightarrow> bool" where
  "isTag (Element t cs h ks) = True"
| "isTag _ = False"

fun childNodes :: "node \<Rightarrow> node list" where
  "childNodes (Element t cs h ks) = ks"
| "childNodes _ = []"

fun attr_href :: "node \<Rightarrow> jsstring option" where
  "attr_href (Element t cs h ks) = h"
| "attr_href _ = None"

text \<open>The selectors \<open>tag\<close> and \<open>tag.class\<close>.\<close>

fun is_tag :: "string \<Rightarrow> node \<Rightarrow> bool" where
  "is_tag t (Element tg cs h ks) = (tg = js t)"
| "is_tag t _ = False"

fun is_tag_class :: "string \<Rightarrow> string \<Rightarrow> node \<Rightarrow> bool" where
  "is_tag_class t c (Element tg cs h ks) = (tg = js t \<and> js c \<in> set cs)"
| "is_tag_class t c _ = False"

text \<open>\<open>.text()\<close>: the text of a node and of all its descendants, comments left out.\<close>

fun textContent :: "node \<Rightarrow> jsstring" where
  "textContent (Text s) = s"
| "textContent (Comment s) = []"
| "textContent (Element t cs h ks) = concat (map textContent ks)"

definition text_of :: "node list \<Rightarrow> jsstring" where
  "text_of sel = concat (map textContent sel)"

text \<open>
  A place is a node together with its ancestors (nearest first) and the siblings that
  follow it. \<open>places\<close> lists every node of a document in document order.
\<close>

type_synonym place = "node \<times> node list \<times> node list"

fun places :: "node list \<Rightarrow> node list \<Rightarrow> place list" where
  "places anc [] = []"
| "places anc (Element t cs h ks # ns) =
     (Element t cs h ks, anc, ns) # places (Element t cs h ks # anc) ks @ places anc ns"
| "places anc (Text s # ns) = (Text s, anc, ns) # places anc ns"
| "places anc (Comment s # ns) = (Comment s, anc, ns) # places anc ns"

text \<open>\<open>$("span.mw-page-title-main")\<close>\<close>

definition select_title :: "document \<Rightarrow> node list" where
  "select_title d =
     [n. (n, anc, ns) \<leftarrow> places [] d, is_tag_class ''span'' ''mw-page-title-main'' n]"

text \<open>\<open>$("div.mw-parser-output > X")\<close>: the child combinator looks at the parent only.\<close>

fun parent_is_output :: "node list \<Rightarrow> bool" where
  "parent_is_output [] = False"
| "parent_is_output (p # anc) = is_tag_class ''div'' ''mw-parser-output'' p"

definition select_output_child :: "string \<Rightarrow> document \<Rightarrow> place list" where
  "select_output_child t d =
     [(n, anc, ns). (n, anc, ns) \<leftarrow> places [] d, is_tag t n \<and> parent_is_output anc]"

text \<open>\<open>$("table.article-table a")\<close>: the descendant combinator looks at every ancestor.\<close>

definition select_table_a :: "document \<Rightarrow> node list" where
  "select_table_a d =
     [n. (n, anc, ns) \<leftarrow> places [] d,
         is_tag ''a'' n \<and> list_ex (is_tag_class ''table'' ''article-table'') anc]"

text \<open>\<open>.next()\<close>: the nearest following sibling that is an element.\<close>

fun next_sibling :: "node list \<Rightarrow> node list \<Rightarrow> place list" where
  "next_sibling anc [] = []"
| "next_sibling anc (Element t cs h ks # ns) = [(Element t cs h ks, anc, ns)]"
| "next_sibling anc (Text s # ns) = next_sibling anc ns"
| "next_sibling anc (Comment s # ns) = next_sibling anc ns"

definition next_el :: "place list \<Rightarrow> place list" where
  "next_el sel = concat (map (\<lambda>(n, anc, ns). next_sibling anc ns) sel)"

text \<open>\<open>.children(tag)\<close>\<close>

definition children_tag :: "string \<Rightarrow> node list \<Rightarrow> node list" where
  "children_tag t sel = [c. n \<leftarrow> sel, c \<leftarrow> childNodes n, is_tag t c]"

section \<open>The network\<close>

text \<open>
  \<open>axios.get\<close> either resolves with a page, rejects, or never settles (no timeout is
  set). A network gives, for a URL and the number of restarts the requesting call has
  behind it, the answer to that request, the page already passed through
  \<open>cheerio.load\<close>.
\<close>

datatype response = Loaded document | Rejected | Pending

type_synonym network = "jsstring \<Rightarrow> nat \<Rightarrow> response"

datatype error = RequestFailed | TypeError

text \<open>
  The outcome of an asynchronous call: \<open>None\<close> when its promise never settles,
  \<open>Some (Inl e)\<close> when it rejects, \<open>Some (Inr v)\<close> when it resolves with \<open>v\<close>.
\<close>

type_synonym 'a outcome = "(error + 'a) option"

text \<open>
  \<open>Promise.all\<close> rejects as soon as one promise rejects, never settles when none
  rejects and one never settles, and otherwise resolves with the values in the order
  of the promises. A TypeError is thrown while the anchors are read, before any request
  is answered, so among the rejections it comes first; the rejections of requests all
  carry the same error.
\<close>

fun rejected_with :: "error \<Rightarrow> 'a outcome \<Rightarrow> bool" where
  "rejected_with e (Some (Inl e')) = (e' = e)"
| "rejected_with e _ = False"

fun resolved_value :: "'a outcome \<Rightarrow> 'a option" where
  "resolved_value (Some (Inr v)) = Some v"
| "resolved_value _ = None"

definition promise_all :: "'a outcome list \<Rightarrow> 'a list outcome" where
  "promise_all ps =
     (if list_ex (rejected_with TypeError) ps then Some (Inl TypeError)
      else if list_ex (rejected_with RequestFailed) ps then Some (Inl RequestFailed)
      else if list_ex Option.is_none ps then None
      else Some (Inr (List.map_filter resolved_value ps)))"

section \<open>getBook\<close>

record Book =
  title :: jsstring
  locations :: "jsstring list"

text \<open>Line 33: the trimmed text of the page's title span.\<close>

definition page_title :: "document \<Rightarrow> jsstring" where
  "page_title d = trim (text_of (select_title d))"

text \<open>
  Lines 34 to 38: the element after the first \<open>h2\<close> of the content block, and the
  element after that one when the title is that of Treasure Map XXI.
\<close>

definition page_acquisition :: "document \<Rightarrow> jsstring \<Rightarrow> place list" where
  "page_acquisition d t =
     (let acquisition = next_el (take 1 (select_output_child ''h2'' d))
      in if t = js ''Treasure Map XXI'' then next_el acquisition else acquisition)"

text \<open>Lines 40 to 46: the list items of the block, or else the block's own text.\<close>

definition page_locations :: "place list \<Rightarrow> jsstring list" where
  "page_locations acquisition =
     (let ls = map (\<lambda>li. trim (textContent li)) (children_tag ''li'' (map fst acquisition))
      in if length ls = 0 then [trim (text_of (map fst acquisition))] else ls)"

partial_function (option) getBook :: "network \<Rightarrow> jsstring \<Rightarrow> nat \<Rightarrow> Book outcome" where
  "getBook net url k =
     (case net url k of
        Pending \<Rightarrow> None
      | Rejected \<Rightarrow> Some (Inl RequestFailed)
      | Loaded d \<Rightarrow>
          (let t = page_title d;
               acquisition = page_acquisition d t;
               ls = page_locations acquisition
           in if t = [] \<or> length ls = 0
              then getBook net url (Suc k)
              else Some (Inr \<lparr>title = t, locations = ls\<rparr>)))"

section \<open>Collecting links\<close>

text \<open>
  Lines 70, 96 and 122: an href names a book when it starts with \<open>/wiki/\<close> and has
  no dot. Line 147 also refuses the Treasure Hunter article.
\<close>

definition is_book_href :: "jsstring \<Rightarrow> bool" where
  "is_book_href h \<longleftrightarrow> startsWith h (js ''/wiki/'') \<and> \<not> js_includes h (js ''.'')"

definition is_book_href3 :: "jsstring \<Rightarrow> bool" where
  "is_book_href3 h \<longleftrightarrow>
     startsWith h (js ''/wiki/'') \<and> \<not> js_includes h (js ''.'')
     \<and> \<not> js_includes h (js ''/wiki/Treasure_Hunter'')"

text \<open>
  The callbacks read \<open>attr("href")\<close> and call \<open>startsWith\<close> on it: on an anchor
  without href that is a TypeError, which rejects the enclosing async function.
  Otherwise the accepted hrefs are kept in the order of the anchors.
\<close>

fun collect_links :: "(jsstring \<Rightarrow> bool) \<Rightarrow> node list \<Rightarrow> error + jsstring list" where
  "collect_links ok [] = Inr []"
| "collect_links ok (a # as) =
     (case attr_href a of
        None \<Rightarrow> Inl TypeError
      | Some h \<Rightarrow>
          (case collect_links ok as of
             Inl e \<Rightarrow> Inl e
           | Inr hs \<Rightarrow> Inr (if ok h then h # hs else hs)))"

text \<open>Lines 65 and 66: the anchors that are children of the list items of a shelf.\<close>

definition bookshelf_anchors :: "node \<Rightarrow> node list" where
  "bookshelf_anchors ol = children_tag ''a'' (children_tag ''li'' [ol])"

definition bookshelf_links :: "node \<Rightarrow> error + jsstring list" where
  "bookshelf_links ol = collect_links is_book_href (bookshelf_anchors ol)"

definition table_links :: "document \<Rightarrow> error + jsstring list" where
  "table_links d = collect_links is_book_href (select_table_a d)"

definition third_floor_links :: "document \<Rightarrow> error + jsstring list" where
  "third_floor_links d = collect_links is_book_href3 (select_table_a d)"

text \<open>\<open>Promise.all\<close> over \<open>getBook(HOMEPAGE + href)\<close>, one call for each accepted href.\<close>

definition getBooks :: "network \<Rightarrow> jsstring list \<Rightarrow> Book list outcome" where
  "getBooks net hrefs = promise_all (map (\<lambda>h. getBook net (HOMEPAGE @ h) 0) hrefs)"

definition getBookshelf :: "network \<Rightarrow> node \<Rightarrow> Book list outcome" where
  "getBookshelf net ol =
     (case bookshelf_links ol of
        Inl e \<Rightarrow> Some (Inl e)
      | Inr hrefs \<Rightarrow> getBooks net hrefs)"

section \<open>The floors and the driver\<close>

definition firstFloorURL :: jsstring where
  "firstFloorURL = js ''https://legacy-of-the-dragonborn.fandom.com/wiki/Library_1st_Floor_(SSE)''"

definition secondFloorURL :: jsstring where
  "secondFloorURL = js ''https://legacy-of-the-dragonborn.fandom.com/wiki/Library_2nd_Floor_(SSE)''"

definition thirdFloorURL :: jsstring where
  "thirdFloorURL = js ''https://legacy-of-the-dragonborn.fandom.com/wiki/Library_3rd_Floor_(SSE)''"

text \<open>Line 89: the first eight \<open>ol\<close> children of the content block.\<close>

definition bookshelves :: "document \<Rightarrow> node list" where
  "bookshelves d = take 8 (map fst (select_output_child ''ol'' d))"

partial_function (option) getFirstFloor :: "network \<Rightarrow> nat \<Rightarrow> Book list outcome" where
  "getFirstFloor net k =
     (case net firstFloorURL k of
        Pending \<Rightarrow> None
      | Rejected \<Rightarrow> Some (Inl RequestFailed)
      | Loaded d \<Rightarrow>
          (case promise_all (map (getBookshelf net) (bookshelves d)) of
             None \<Rightarrow> None
           | Some (Inl e) \<Rightarrow> Some (Inl e)
           | Some (Inr shelves) \<Rightarrow>
               (let bookshelf_books = concat shelves
                in case table_links d of
                     Inl e \<Rightarrow> Some (Inl e)
                   | Inr hrefs \<Rightarrow>
                       (case getBooks net hrefs of
                          None \<Rightarrow> None
                        | Some (Inl e) \<Rightarrow> Some (Inl e)
                        | Some (Inr table_books) \<Rightarrow>
                            (let all_books = bookshelf_books @ table_books
                             in if length all_books = 0
                                then getFirstFloor net (Suc k)
                                else Some (Inr all_books))))))"

partial_function (option) getSecondFloor :: "network \<Rightarrow> nat \<Rightarrow> Book list outcome" where
  "getSecondFloor net k =
     (case net secondFloorURL k of
        Pending \<Rightarrow> None
      | Rejected \<Rightarrow> Some (Inl RequestFailed)
      | Loaded d \<Rightarrow>
          (case table_links d of
             Inl e \<Rightarrow> Some (Inl e)
           | Inr hrefs \<Rightarrow>
               (case getBooks net hrefs of
                  None \<Rightarrow> None
                | Some (Inl e) \<Rightarrow> Some (Inl e)
                | Some (Inr books) \<Rightarrow>
                    if length books = 0
                    then getSecondFloor net (Suc k)
                    else Some (Inr books))))"

partial_function (option) getThirdFloor :: "network \<Rightarrow> nat \<Rightarrow> Book list outcome" where
  "getThirdFloor net k =
     (case net thirdFloorURL k of
        Pending \<Rightarrow> None
      | Rejected \<Rightarrow> Some (Inl RequestFailed)
      | Loaded d \<Rightarrow>
          (case third_floor_links d of
             Inl e \<Rightarrow> Some (Inl e)
           | Inr hrefs \<Rightarrow>
               (case getBooks net hrefs of
                  None \<Rightarrow> None
                | Some (Inl e) \<Rightarrow> Some (Inl e)
                | Some (Inr books) \<Rightarrow>
                    if length books = 0
                    then getThirdFloor net (Suc k)
                    else Some (Inr books))))"

text \<open>
  Lines 160 to 163: the floors one after the other, then \<open>allBooks\<close>, the array that
  \<open>JSON.stringify\<close> serialises and \<open>console.log\<close> prints.
\<close>

definition main :: "network \<Rightarrow> Book list outcome" where
  "main net =
     (case getFirstFloor net 0 of
        None \<Rightarrow> None
      | Some (Inl e) \<Rightarrow> Some (Inl e)
      | Some (Inr firstFloor) \<Rightarrow>
          (case getSecondFloor net 0 of
             None \<Rightarrow> None
           | Some (Inl e) \<Rightarrow> Some (Inl e)
           | Some (Inr secondFloor) \<Rightarrow>
               (case getThirdFloor net 0 of
                  None \<Rightarrow> None
                | Some (Inl e) \<Rightarrow> Some (Inl e)
                | Some (Inr thirdFloor) \<Rightarrow>
                    Some (Inr (firstFloor @ secondFloor @ thirdFloor)))))"

section \<open>Notions used to state the properties\<close>

text \<open>The Book that lines 33 to 52 build from a page whose title is not empty.\<close>

definition book_of_page :: "document \<Rightarrow> Book" where
  "book_of_page d =
     \<lparr>title = page_title d, locations = page_locations (page_acquisition d (page_title d))\<rparr>"

text \<open>
  The invariant of a Record as the data model of the specification words it: a
  title that is not empty, at least one location, and no location that is empty.
\<close>

definition Record_invariant :: "Book \<Rightarrow> bool" where
  "Record_invariant b \<longleftrightarrow> title b \<noteq> [] \<and> locations b \<noteq> [] \<and> [] \<notin> set (locations b)"

text \<open>
  The elements that follow the first second-level heading of the content block among
  its siblings, in document order; none when the page has no such heading.
\<close>

definition elements_after_heading :: "document \<Rightarrow> node list" where
  "elements_after_heading d =
     (case select_output_child ''h2'' d of
        [] \<Rightarrow> []
      | (n, anc, ns) # rest \<Rightarrow> filter isTag ns)"


fun all_links :: "(error + jsstring list) list \<Rightarrow> error + jsstring list" where
  "all_links [] = Inr []"
| "all_links (r # rs) =
     (case r of
        Inl e \<Rightarrow> Inl e
      | Inr hs \<Rightarrow>
          (case all_links rs of
             Inl e \<Rightarrow> Inl e
           | Inr hs' \<Rightarrow> Inr (hs @ hs')))"

definition shelves_links :: "document \<Rightarrow> error + jsstring list" where
  "shelves_links d = all_links (map bookshelf_links (bookshelves d))"




section \<open>Example pages and networks\<close>

definition el :: "string \<Rightarrow> string list \<Rightarrow> node list \<Rightarrow> node" where
  "el t cs ks = Element (js t) (map js cs) None ks"

definition anchor :: "string \<Rightarrow> node" where
  "anchor h = Element (js ''a'') [] (Some (js h)) [Text (js ''link'')]"

text \<open>An item page: the title span, then the content block with its heading.\<close>

definition book_page :: "jsstring \<Rightarrow> node list \<Rightarrow> document" where
  "book_page t block =
     [el ''span'' [''mw-page-title-main''] [Text t],
      el ''div'' [''mw-parser-output''] (el ''h2'' [] [Text (js ''Acquisition'')] # block)]"

definition table_page :: "node list \<Rightarrow> document" where
  "table_page as = [el ''table'' [''article-table''] [el ''tr'' [] [el ''td'' [] as]]]"

definition shelf :: "node list \<Rightarrow> node" where
  "shelf as = el ''ol'' [] (map (\<lambda>a. el ''li'' [] [a]) as)"

definition floor_page :: "node list \<Rightarrow> node list \<Rightarrow> document" where
  "floor_page shelves as = [el ''div'' [''mw-parser-output''] (shelves @ table_page as)]"

text \<open>A network that answers every request with the same page.\<close>

definition always :: "document \<Rightarrow> network" where
  "always d url k = Loaded d"

text \<open>A network that gives the listed answers in turn, and then none.\<close>

definition answers :: "response list \<Rightarrow> network" where
  "answers rs url k = (if k < length rs then rs ! k else Pending)"

text \<open>
  A wiki with the three floors; every other URL is an item page whose title is the
  URL itself. The page of the second floor is a parameter.
\<close>

definition library_with :: "document \<Rightarrow> network" where
  "library_with second url k =
     (if url = firstFloorURL then
        Loaded (floor_page [shelf [anchor ''/wiki/A'', anchor ''/wiki/File:A.png''],
                            shelf [anchor ''/wiki/B'']]
                           [anchor ''/wiki/C''])
      else if url = secondFloorURL then Loaded second
      else if url = thirdFloorURL then
        Loaded (table_page [anchor ''/wiki/Treasure_Hunter'', anchor ''/wiki/E''])
      else Loaded (book_page url [el ''p'' [] [Text (js '' Library '')]]))"

text \<open>The item page behind an href of that wiki, and the Book it holds.\<close>

definition library_page :: "jsstring \<Rightarrow> document" where
  "library_page h = book_page (HOMEPAGE @ h) [el ''p'' [] [Text (js '' Library '')]]"

definition library_book :: "string \<Rightarrow> Book" where
  "library_book h = \<lparr>title = HOMEPAGE @ js h, locations = [js ''Library'']\<rparr>"

definition library :: network where
  "library = library_with (table_page [anchor ''/wiki/D'', anchor ''#top''])"

text \<open>The same wiki when each floor answers its first request with an empty page.\<close>

definition late_library :: network where
  "late_library url k =
     (if url \<in> {firstFloorURL, secondFloorURL, thirdFloorURL} \<and> k = 0 then Loaded []
      else library url k)"

text \<open>The wiki with a second floor that has an anchor without href in its table.\<close>

definition library_broken_second :: network where
  "library_broken_second =
     library_with (table_page [anchor ''/wiki/D'', Element (js ''a'') [] None [Text (js ''top'')]])"

definition library_without_second :: network where
  "library_without_second = library_with (table_page [anchor ''/wiki/File:D.png''])"

section \<open>Facts about text\<close>

lemma js_includes_refl: "js_includes s s"
  by (cases s) simp_all

lemma js_includes_single: "js_includes s [c] \<longleftrightarrow> c \<in> set s"
  by (induction s) auto

section \<open>Facts about the queries\<close>

lemma next_sibling_elements:
  "map fst (next_sibling anc ns) = take 1 (filter isTag ns)"
  by (induction anc ns rule: next_sibling.induct) simp_all

lemma next_sibling_rest:
  "next_sibling anc ns = [(n, anc', ns')] \<Longrightarrow> filter isTag ns = n # filter isTag ns'"
  by (induction anc ns rule: next_sibling.induct) auto

lemma next_sibling_none:
  "next_sibling anc ns = [] \<Longrightarrow> filter isTag ns = []"
  by (induction anc ns rule: next_sibling.induct) auto

lemma next_sibling_cases:
  "next_sibling anc ns = [] \<or> (\<exists>n ns'. next_sibling anc ns = [(n, anc, ns')])"
  by (induction anc ns rule: next_sibling.induct) auto

lemma next_sibling_twice:
  "map fst (next_el (next_sibling anc ns)) = take 1 (drop 1 (filter isTag ns))"
proof -
  consider "next_sibling anc ns = []"
    | n ns' where "next_sibling anc ns = [(n, anc, ns')]"
    using next_sibling_cases by blast
  then show ?thesis
  proof cases
    case 1
    then show ?thesis by (simp add: next_el_def next_sibling_none)
  next
    case 2
    then show ?thesis
      by (simp add: next_el_def next_sibling_elements next_sibling_rest [OF 2])
  qed
qed

lemma acquisition_elements:
  "map fst (page_acquisition d t) =
     take 1 (drop (if t = js ''Treasure Map XXI'' then 1 else 0) (elements_after_heading d))"
proof (cases "select_output_child ''h2'' d")
  case Nil
  then show ?thesis
    by (simp add: page_acquisition_def elements_after_heading_def next_el_def)
next
  case (Cons p ps)
  obtain n anc ns where p: "p = (n, anc, ns)" by (cases p)
  have first: "next_el (take 1 (select_output_child ''h2'' d)) = next_sibling anc ns"
    by (simp add: Cons p next_el_def)
  have after: "elements_after_heading d = filter isTag ns"
    by (simp add: elements_after_heading_def Cons p)
  show ?thesis
    unfolding page_acquisition_def Let_def first after
    by (simp add: next_sibling_elements next_sibling_twice)
qed

section \<open>Facts about collecting links\<close>

lemma collect_links_eq:
  "collect_links ok as =
     (if None \<in> set (map attr_href as) then Inl TypeError
      else Inr (filter ok (map the (map attr_href as))))"
  by (induction as) (auto split: option.splits)

lemma collect_links_accepts:
  "collect_links ok as = Inr hs \<Longrightarrow> h \<in> set hs \<Longrightarrow> ok h"
  by (auto simp: collect_links_eq split: if_splits)





lemma all_links_Inr:
  "all_links rs = Inr hs \<Longrightarrow> \<exists>shelves. rs = map Inr shelves \<and> concat shelves = hs"
proof (induction rs arbitrary: hs)
  case Nil
  then show ?case by simp
next
  case (Cons r rs)
  from Cons.prems obtain h hs' where r: "r = Inr h" and rest: "all_links rs = Inr hs'"
    and hs: "hs = h @ hs'"
    by (auto split: sum.splits)
  from Cons.IH [OF rest] obtain shelves where "rs = map Inr shelves" "concat shelves = hs'"
    by blast
  then have "r # rs = map Inr (h # shelves) \<and> concat (h # shelves) = hs"
    by (simp add: r hs)
  then show ?case by (rule exI)
qed

text \<open>
  The links of the shelves are those that the first floor hands to getBook in its
  first phase.
\<close>

lemma shelves_links_Inr:
  "shelves_links d = Inr hs \<Longrightarrow>
     \<exists>shelves. map bookshelf_links (bookshelves d) = map Inr shelves \<and> concat shelves = hs"
  unfolding shelves_links_def by (rule all_links_Inr)

section \<open>Facts about Promise.all\<close>

lemma promise_all_Nil: "promise_all [] = Some (Inr [])"
  by (simp add: promise_all_def map_filter_simps)

lemma promise_all_Cons:
  "promise_all (Some (Inr v) # ps) =
     (case promise_all ps of
        None \<Rightarrow> None
      | Some (Inl e) \<Rightarrow> Some (Inl e)
      | Some (Inr vs) \<Rightarrow> Some (Inr (v # vs)))"
  by (simp add: promise_all_def map_filter_simps)

lemma promise_all_TypeError_first:
  "promise_all [Some (Inl RequestFailed), None, Some (Inl TypeError)] = Some (Inl TypeError)"
  by (simp add: promise_all_def)

lemma promise_all_resolved:
  "promise_all (map (\<lambda>x. Some (Inr (f x))) xs) = Some (Inr (map f xs))"
  by (induction xs) (simp_all add: promise_all_Nil promise_all_Cons)

lemma promise_all_values:
  assumes "promise_all ps = Some (Inr vs)"
  shows "ps = map (\<lambda>v. Some (Inr v)) vs"
  using assms
proof (induction ps arbitrary: vs)
  case Nil
  then show ?case by (simp add: promise_all_Nil)
next
  case (Cons p ps)
  show ?case
  proof (cases p)
    case None
    with Cons.prems show ?thesis
      by (simp add: promise_all_def split: if_splits)
  next
    case (Some r)
    show ?thesis
    proof (cases r)
      case (Inl e)
      with Some Cons.prems show ?thesis
        by (cases e) (simp_all add: promise_all_def split: if_splits)
    next
      case (Inr v)
      with Some Cons.prems Cons.IH show ?thesis
        by (auto simp: promise_all_Cons split: option.splits sum.splits)
    qed
  qed
qed

lemma promise_all_length:
  "promise_all ps = Some (Inr vs) \<Longrightarrow> length vs = length ps"
  by (drule promise_all_values) simp

section \<open>Facts about getBook\<close>

lemma page_locations_nonempty: "page_locations a \<noteq> []"
  by (simp add: page_locations_def Let_def)

lemma page_locations_eq:
  "page_locations a =
     (if children_tag ''li'' (map fst a) = [] then [trim (text_of (map fst a))]
      else map (\<lambda>li. trim (textContent li)) (children_tag ''li'' (map fst a)))"
  by (simp add: page_locations_def Let_def)

lemma getBook_Loaded:
  "net url k = Loaded d \<Longrightarrow>
   getBook net url k =
     (if page_title d = [] then getBook net url (Suc k) else Some (Inr (book_of_page d)))"
  by (subst getBook.simps) (simp add: Let_def page_locations_nonempty book_of_page_def)

lemma getBook_Rejected: "net url k = Rejected \<Longrightarrow> getBook net url k = Some (Inl RequestFailed)"
  by (subst getBook.simps) simp

lemma getBook_Pending: "net url k = Pending \<Longrightarrow> getBook net url k = None"
  by (subst getBook.simps) simp

lemma getBook_result:
  assumes "getBook net url k = Some r"
  shows "case r of Inl e \<Rightarrow> e = RequestFailed
                 | Inr b \<Rightarrow> title b \<noteq> [] \<and> locations b \<noteq> []"
proof (rule getBook.raw_induct
    [where P = "\<lambda>net url k r. case r of Inl e \<Rightarrow> e = RequestFailed
                                | Inr b \<Rightarrow> title b \<noteq> [] \<and> locations b \<noteq> []",
     OF _ assms], goal_cases)
  case (1 rec net url k r)
  show ?case
  proof (cases "net url k")
    case (Loaded d)
    show ?thesis
    proof (cases "page_title d = []")
      case True
      with 1(2) Loaded have "rec net url (Suc k) = Some r"
        by (simp add: Let_def)
      then show ?thesis by (rule 1(1))
    next
      case False
      with 1(2) Loaded show ?thesis
        by (auto simp: Let_def page_locations_nonempty)
    qed
  next
    case Rejected
    with 1(2) show ?thesis by auto
  next
    case Pending
    with 1(2) show ?thesis by simp
  qed
qed

text \<open>After \<open>n\<close> pages without a title the call is at its \<open>n\<close>-th restart.\<close>

lemma getBook_restarts:
  "(\<And>j. j < n \<Longrightarrow> \<exists>d. net url (k + j) = Loaded d \<and> page_title d = []) \<Longrightarrow>
   getBook net url k = getBook net url (k + n)"
proof (induction n)
  case 0
  show ?case by simp
next
  case (Suc n)
  have "getBook net url k = getBook net url (k + n)"
    using Suc.prems by (intro Suc.IH) simp
  moreover obtain d where "net url (k + n) = Loaded d" "page_title d = []"
    using Suc.prems [of n] by auto
  ultimately show ?case by (simp add: getBook_Loaded)
qed

text \<open>It returns the Book of the first page that has a title.\<close>

lemma getBook_eventually:
  assumes "\<And>j. j < n \<Longrightarrow> \<exists>d. net url (k + j) = Loaded d \<and> page_title d = []"
    and "net url (k + n) = Loaded d" and "page_title d \<noteq> []"
  shows "getBook net url k = Some (Inr (book_of_page d))"
proof -
  have "getBook net url k = getBook net url (k + n)"
    using assms(1) by (rule getBook_restarts)
  also have "\<dots> = Some (Inr (book_of_page d))"
    using assms(2,3) by (simp add: getBook_Loaded [where d = d])
  finally show ?thesis .
qed

lemma getBooks_Nil: "getBooks net [] = Some (Inr [])"
  by (simp add: getBooks_def promise_all_Nil)

lemma getBooks_length: "getBooks net hs = Some (Inr bs) \<Longrightarrow> length bs = length hs"
  by (auto simp: getBooks_def dest: promise_all_length)

lemma getBooks_valid:
  assumes "\<And>h. h \<in> set hs \<Longrightarrow> net (HOMEPAGE @ h) 0 = Loaded (pg h) \<and> page_title (pg h) \<noteq> []"
  shows "getBooks net hs = Some (Inr (map (\<lambda>h. book_of_page (pg h)) hs))"
proof -
  have eq: "map (\<lambda>h. getBook net (HOMEPAGE @ h) 0) hs
      = map (\<lambda>h. Some (Inr (book_of_page (pg h)))) hs"
    using assms by (simp add: getBook_Loaded)
  show ?thesis
    unfolding getBooks_def eq by (rule promise_all_resolved)
qed

section \<open>Facts about the floors\<close>

lemma getSecondFloor_step:
  assumes "net secondFloorURL k = Loaded d" "table_links d = Inr hs"
    and "getBooks net hs = Some (Inr bs)"
  shows "getSecondFloor net k = (if bs = [] then getSecondFloor net (Suc k) else Some (Inr bs))"
  by (subst getSecondFloor.simps) (simp add: assms)

lemma getThirdFloor_step:
  assumes "net thirdFloorURL k = Loaded d" "third_floor_links d = Inr hs"
    and "getBooks net hs = Some (Inr bs)"
  shows "getThirdFloor net k = (if bs = [] then getThirdFloor net (Suc k) else Some (Inr bs))"
  by (subst getThirdFloor.simps) (simp add: assms)

lemma getFirstFloor_step:
  assumes "net firstFloorURL k = Loaded d"
    and "promise_all (map (getBookshelf net) (bookshelves d)) = Some (Inr shelves)"
    and "table_links d = Inr hs" "getBooks net hs = Some (Inr bs)"
  shows "getFirstFloor net k =
     (if concat shelves @ bs = [] then getFirstFloor net (Suc k)
      else Some (Inr (concat shelves @ bs)))"
  by (subst getFirstFloor.simps) (simp add: assms Let_def)

lemma getSecondFloor_result:
  assumes "getSecondFloor net k = Some r"
  shows "case r of Inl e \<Rightarrow> True | Inr bs \<Rightarrow> bs \<noteq> []"
proof (rule getSecondFloor.raw_induct
    [where P = "\<lambda>net k r. case r of Inl e \<Rightarrow> True | Inr bs \<Rightarrow> bs \<noteq> []",
     OF _ assms], goal_cases)
  case (1 rec net k r)
  from 1(2) show ?case
    by (auto split: response.splits sum.splits option.splits if_splits dest: 1(1))
qed

lemma getSecondFloor_nonempty: "getSecondFloor net k = Some (Inr bs) \<Longrightarrow> bs \<noteq> []"
  by (drule getSecondFloor_result) simp

lemma getThirdFloor_result:
  assumes "getThirdFloor net k = Some r"
  shows "case r of Inl e \<Rightarrow> True | Inr bs \<Rightarrow> bs \<noteq> []"
proof (rule getThirdFloor.raw_induct
    [where P = "\<lambda>net k r. case r of Inl e \<Rightarrow> True | Inr bs \<Rightarrow> bs \<noteq> []",
     OF _ assms], goal_cases)
  case (1 rec net k r)
  from 1(2) show ?case
    by (auto split: response.splits sum.splits option.splits if_splits dest: 1(1))
qed

lemma getThirdFloor_nonempty: "getThirdFloor net k = Some (Inr bs) \<Longrightarrow> bs \<noteq> []"
  by (drule getThirdFloor_result) simp

lemma getFirstFloor_result:
  assumes "getFirstFloor net k = Some r"
  shows "case r of Inl e \<Rightarrow> True | Inr bs \<Rightarrow> bs \<noteq> []"
proof (rule getFirstFloor.raw_induct
    [where P = "\<lambda>net k r. case r of Inl e \<Rightarrow> True | Inr bs \<Rightarrow> bs \<noteq> []",
     OF _ assms], goal_cases)
  case (1 rec net k r)
  from 1(2) show ?case
    by (auto simp: Let_def split: response.splits sum.splits option.splits if_splits dest: 1(1))
qed

lemma getFirstFloor_nonempty: "getFirstFloor net k = Some (Inr bs) \<Longrightarrow> bs \<noteq> []"
  by (drule getFirstFloor_result) simp

section \<open>The example pages, evaluated\<close>

lemmas page_defs =
  book_of_page_def page_title_def page_acquisition_def page_locations_def
  select_title_def select_output_child_def next_el_def children_tag_def text_of_def
  trim_def isWhiteSpace_def book_page_def el_def js_def

lemma book_of_bare_page:
  "book_of_page (book_page (js ''A'') [el ''p'' [] [Text (js '' '')]])
     = \<lparr>title = js ''A'', locations = [[]]\<rparr>"
  by (simp add: page_defs)

lemma book_of_list_page:
  "book_of_page (book_page (js '' Lost Legends '')
       [Text (js '' ''), el ''ul'' [] [el ''li'' [] [Text (js '' Chest '')], el ''li'' [] []]])
     = \<lparr>title = js ''Lost Legends'', locations = [js ''Chest'', []]\<rparr>"
  by (simp add: page_defs)

lemma book_of_paragraph_page:
  "book_of_page (book_page (js ''The Lusty Argonian Maid'')
       [el ''p'' [] [Text (js '' Sold by ''), el ''b'' [] [Text (js ''Latoria'')], Comment (js ''x'')]])
     = \<lparr>title = js ''The Lusty Argonian Maid'', locations = [js ''Sold by Latoria'']\<rparr>"
  by (simp add: page_defs)

lemma book_of_treasure_map:
  "book_of_page (book_page (js ''Treasure Map XXI'')
       [el ''figure'' [] [Text (js ''map'')], el ''ul'' [] [el ''li'' [] [Text (js ''Deepholme'')]]])
     = \<lparr>title = js ''Treasure Map XXI'', locations = [js ''Deepholme'']\<rparr>"
  by (simp add: page_defs)

lemma book_of_other_map:
  "book_of_page (book_page (js ''Treasure Map XX'')
       [el ''figure'' [] [Text (js ''map'')], el ''ul'' [] [el ''li'' [] [Text (js ''Deepholme'')]]])
     = \<lparr>title = js ''Treasure Map XX'', locations = [js ''map'']\<rparr>"
  by (simp add: page_defs)

lemma page_title_empty: "page_title [] = []"
  by (simp add: page_defs)

lemma getBook_valid:
  assumes "net url k = Loaded d" and "title (book_of_page d) \<noteq> []"
  shows "getBook net url k = Some (Inr (book_of_page d))"
proof -
  have "page_title d \<noteq> []"
    using assms(2) by (simp add: book_of_page_def)
  with assms(1) show ?thesis
    by (simp add: getBook_Loaded [where d = d])
qed

lemma bare_page_parts:
  "page_title (book_page (js ''A'') [el ''p'' [] [Text (js '' '')]]) = js ''A''"
  "children_tag ''li'' (map fst (page_acquisition
       (book_page (js ''A'') [el ''p'' [] [Text (js '' '')]]) (js ''A''))) = []"
  "trim (text_of (map fst (page_acquisition
       (book_page (js ''A'') [el ''p'' [] [Text (js '' '')]]) (js ''A'')))) = []"
  by (simp_all add: page_defs)

lemma list_page_parts:
  "page_title (book_page (js '' Lost Legends '')
       [Text (js '' ''), el ''ul'' [] [el ''li'' [] [Text (js '' Chest '')], el ''li'' [] []]])
     = js ''Lost Legends''"
  "children_tag ''li'' (map fst (page_acquisition (book_page (js '' Lost Legends '')
       [Text (js '' ''), el ''ul'' [] [el ''li'' [] [Text (js '' Chest '')], el ''li'' [] []]])
       (js ''Lost Legends'')))
     = [el ''li'' [] [Text (js '' Chest '')], el ''li'' [] []]"
  by (simp_all add: page_defs)

lemma paragraph_page_parts:
  "page_title (book_page (js ''The Lusty Argonian Maid'')
       [el ''p'' [] [Text (js '' Sold by ''), el ''b'' [] [Text (js ''Latoria'')], Comment (js ''x'')]])
     = js ''The Lusty Argonian Maid''"
  "children_tag ''li'' (map fst (page_acquisition (book_page (js ''The Lusty Argonian Maid'')
       [el ''p'' [] [Text (js '' Sold by ''), el ''b'' [] [Text (js ''Latoria'')], Comment (js ''x'')]])
       (js ''The Lusty Argonian Maid''))) = []"
  "trim (text_of (map fst (page_acquisition (book_page (js ''The Lusty Argonian Maid'')
       [el ''p'' [] [Text (js '' Sold by ''), el ''b'' [] [Text (js ''Latoria'')], Comment (js ''x'')]])
       (js ''The Lusty Argonian Maid'')))) = js ''Sold by Latoria''"
  by (simp_all add: page_defs)

lemma js_not_Nil: "js (c # cs) \<noteq> []"
  by (simp add: js_def)

lemma trim_chest:
  "trim (textContent (el ''li'' [] [Text (js '' Chest '')])) = js ''Chest''"
  "trim (textContent (el ''li'' [] [])) = []"
  by (simp_all add: page_defs)

lemma treasure_map_siblings:
  "elements_after_heading (book_page t
       [el ''figure'' [] [Text (js ''map'')], el ''ul'' [] [el ''li'' [] [Text (js ''Deepholme'')]]])
     = [el ''figure'' [] [Text (js ''map'')], el ''ul'' [] [el ''li'' [] [Text (js ''Deepholme'')]]]"
  by (simp add: elements_after_heading_def select_output_child_def book_page_def el_def js_def)

section \<open>The example listings, evaluated\<close>

lemmas listing_defs =
  bookshelf_links_def bookshelf_anchors_def table_links_def third_floor_links_def
  select_table_a_def children_tag_def is_book_href_def is_book_href3_def startsWith_def
  table_page_def shelf_def anchor_def el_def js_def

lemma shelf_links_example:
  "bookshelf_links (shelf [anchor ''/wiki/A'', anchor ''/wiki/File:A.png'', anchor ''/wiki/B''])
     = Inr [js ''/wiki/A'', js ''/wiki/B'']"
  by (simp add: listing_defs)

lemma table_links_example:
  "table_links (table_page [anchor ''/wiki/B'', anchor ''#top'', anchor ''/wiki/A''])
     = Inr [js ''/wiki/B'', js ''/wiki/A'']"
  by (simp add: listing_defs)

lemma table_links_treasure_hunter:
  "table_links (table_page [anchor ''/wiki/Treasure_Hunter'', anchor ''/wiki/E''])
     = Inr [js ''/wiki/Treasure_Hunter'', js ''/wiki/E'']"
  by (simp add: listing_defs)

lemma third_floor_links_example:
  "third_floor_links (table_page [anchor ''/wiki/Treasure_Hunter'', anchor ''/wiki/E''])
     = Inr [js ''/wiki/E'']"
  by (simp add: listing_defs)






section \<open>Floors whose links all lead to pages with a title\<close>

lemma getBookshelf_links:
  "bookshelf_links ol = Inr hs \<Longrightarrow> getBookshelf net ol = getBooks net hs"
  by (simp add: getBookshelf_def)

lemma shelves_valid:
  assumes "map bookshelf_links ols = map Inr shelves"
    and "\<And>h. h \<in> set (concat shelves) \<Longrightarrow>
           net (HOMEPAGE @ h) 0 = Loaded (pg h) \<and> page_title (pg h) \<noteq> []"
  shows "promise_all (map (getBookshelf net) ols)
     = Some (Inr (map (map (\<lambda>h. book_of_page (pg h))) shelves))"
  using assms
proof (induction ols arbitrary: shelves)
  case Nil
  then show ?case by (simp add: promise_all_Nil)
next
  case (Cons ol ols)
  from Cons.prems(1) obtain hs rest where shelves: "shelves = hs # rest"
    and ol: "bookshelf_links ol = Inr hs" and ols: "map bookshelf_links ols = map Inr rest"
    by (cases shelves) auto
  have "getBookshelf net ol = Some (Inr (map (\<lambda>h. book_of_page (pg h)) hs))"
    unfolding getBookshelf_links [OF ol]
    by (rule getBooks_valid) (simp add: Cons.prems(2) shelves)
  moreover have "promise_all (map (getBookshelf net) ols)
      = Some (Inr (map (map (\<lambda>h. book_of_page (pg h))) rest))"
    using ols by (rule Cons.IH) (simp add: Cons.prems(2) shelves)
  ultimately show ?case by (simp add: shelves promise_all_Cons)
qed

lemma getFirstFloor_valid:
  assumes "net firstFloorURL k = Loaded d"
    and "map bookshelf_links (bookshelves d) = map Inr shelves"
    and "table_links d = Inr hs"
    and valid: "\<And>h. h \<in> set (concat shelves @ hs) \<Longrightarrow>
           net (HOMEPAGE @ h) 0 = Loaded (pg h) \<and> page_title (pg h) \<noteq> []"
    and "concat shelves @ hs \<noteq> []"
  shows "getFirstFloor net k = Some (Inr (map (\<lambda>h. book_of_page (pg h)) (concat shelves @ hs)))"
proof -
  have a: "promise_all (map (getBookshelf net) (bookshelves d))
      = Some (Inr (map (map (\<lambda>h. book_of_page (pg h))) shelves))"
    using assms(2) by (rule shelves_valid) (simp add: valid)
  have b: "getBooks net hs = Some (Inr (map (\<lambda>h. book_of_page (pg h)) hs))"
    by (rule getBooks_valid) (simp add: valid)
  have c: "concat (map (map (\<lambda>h. book_of_page (pg h))) shelves) @ map (\<lambda>h. book_of_page (pg h)) hs
      = map (\<lambda>h. book_of_page (pg h)) (concat shelves @ hs)"
    by (simp add: map_concat)
  have "map (\<lambda>h. book_of_page (pg h)) (concat shelves @ hs) \<noteq> []"
    using assms(5) by (simp only: map_is_Nil_conv not_False_eq_True)
  then show ?thesis
    unfolding getFirstFloor_step [OF assms(1) a assms(3) b] c by (simp only: if_False)
qed

lemma getSecondFloor_valid:
  assumes "net secondFloorURL k = Loaded d" and "table_links d = Inr hs"
    and valid: "\<And>h. h \<in> set hs \<Longrightarrow>
           net (HOMEPAGE @ h) 0 = Loaded (pg h) \<and> page_title (pg h) \<noteq> []"
    and "hs \<noteq> []"
  shows "getSecondFloor net k = Some (Inr (map (\<lambda>h. book_of_page (pg h)) hs))"
proof -
  have b: "getBooks net hs = Some (Inr (map (\<lambda>h. book_of_page (pg h)) hs))"
    by (rule getBooks_valid) (simp add: valid)
  show ?thesis
    using assms(4) by (simp add: getSecondFloor_step [OF assms(1) assms(2) b])
qed

lemma getThirdFloor_valid:
  assumes "net thirdFloorURL k = Loaded d" and "third_floor_links d = Inr hs"
    and valid: "\<And>h. h \<in> set hs \<Longrightarrow>
           net (HOMEPAGE @ h) 0 = Loaded (pg h) \<and> page_title (pg h) \<noteq> []"
    and "hs \<noteq> []"
  shows "getThirdFloor net k = Some (Inr (map (\<lambda>h. book_of_page (pg h)) hs))"
proof -
  have b: "getBooks net hs = Some (Inr (map (\<lambda>h. book_of_page (pg h)) hs))"
    by (rule getBooks_valid) (simp add: valid)
  show ?thesis
    using assms(4) by (simp add: getThirdFloor_step [OF assms(1) assms(2) b])
qed

text \<open>A floor that finds no book link on this and every later attempt never returns.\<close>

lemma getSecondFloor_never:
  assumes "\<forall>j\<ge>k. \<exists>d. net secondFloorURL j = Loaded d \<and> table_links d = Inr []"
  shows "getSecondFloor net k = None"
proof (rule ccontr)
  assume "getSecondFloor net k \<noteq> None"
  then obtain r where r: "getSecondFloor net k = Some r" by auto
  have "\<not> (\<forall>j\<ge>k. \<exists>d. net secondFloorURL j = Loaded d \<and> table_links d = Inr [])"
  proof (rule getSecondFloor.raw_induct
      [where P = "\<lambda>n k r. \<not> (\<forall>j\<ge>k. \<exists>d. n secondFloorURL j = Loaded d \<and> table_links d = Inr [])",
       OF _ r], goal_cases)
    case (1 rec n i s)
    show ?case
    proof
      assume all: "\<forall>j\<ge>i. \<exists>d. n secondFloorURL j = Loaded d \<and> table_links d = Inr []"
      then obtain d where "n secondFloorURL i = Loaded d" "table_links d = Inr []"
        by blast
      with 1(2) have "rec n (Suc i) = Some s"
        by (simp add: getBooks_Nil)
      then have "\<not> (\<forall>j\<ge>Suc i. \<exists>d. n secondFloorURL j = Loaded d \<and> table_links d = Inr [])"
        by (rule 1(1))
      with all show False by (meson Suc_leD)
    qed
  qed
  with assms show False by simp
qed

lemma getThirdFloor_never:
  assumes "\<forall>j\<ge>k. \<exists>d. net thirdFloorURL j = Loaded d \<and> third_floor_links d = Inr []"
  shows "getThirdFloor net k = None"
proof (rule ccontr)
  assume "getThirdFloor net k \<noteq> None"
  then obtain r where r: "getThirdFloor net k = Some r" by auto
  have "\<not> (\<forall>j\<ge>k. \<exists>d. net thirdFloorURL j = Loaded d \<and> third_floor_links d = Inr [])"
  proof (rule getThirdFloor.raw_induct
      [where P = "\<lambda>n k r. \<not> (\<forall>j\<ge>k. \<exists>d. n thirdFloorURL j = Loaded d \<and> third_floor_links d = Inr [])",
       OF _ r], goal_cases)
    case (1 rec n i s)
    show ?case
    proof
      assume all: "\<forall>j\<ge>i. \<exists>d. n thirdFloorURL j = Loaded d \<and> third_floor_links d = Inr []"
      then obtain d where "n thirdFloorURL i = Loaded d" "third_floor_links d = Inr []"
        by blast
      with 1(2) have "rec n (Suc i) = Some s"
        by (simp add: getBooks_Nil)
      then have "\<not> (\<forall>j\<ge>Suc i. \<exists>d. n thirdFloorURL j = Loaded d \<and> third_floor_links d = Inr [])"
        by (rule 1(1))
      with all show False by (meson Suc_leD)
    qed
  qed
  with assms show False by simp
qed

lemma empty_shelves:
  assumes "\<forall>ol\<in>set ols. bookshelf_links ol = Inr []"
  shows "promise_all (map (getBookshelf net) ols) = Some (Inr (map (\<lambda>ol. []) ols))"
proof -
  have "map (getBookshelf net) ols = map (\<lambda>ol. Some (Inr [])) ols"
    using assms by (simp add: getBookshelf_def getBooks_Nil)
  then show ?thesis
    by (simp only: promise_all_resolved)
qed

lemma getFirstFloor_never:
  assumes "\<forall>j\<ge>k. \<exists>d. net firstFloorURL j = Loaded d
      \<and> (\<forall>ol\<in>set (bookshelves d). bookshelf_links ol = Inr []) \<and> table_links d = Inr []"
  shows "getFirstFloor net k = None"
proof (rule ccontr)
  assume "getFirstFloor net k \<noteq> None"
  then obtain r where r: "getFirstFloor net k = Some r" by auto
  have "\<not> (\<forall>j\<ge>k. \<exists>d. net firstFloorURL j = Loaded d
      \<and> (\<forall>ol\<in>set (bookshelves d). bookshelf_links ol = Inr []) \<and> table_links d = Inr [])"
  proof (rule getFirstFloor.raw_induct
      [where P = "\<lambda>n k r. \<not> (\<forall>j\<ge>k. \<exists>d. n firstFloorURL j = Loaded d
          \<and> (\<forall>ol\<in>set (bookshelves d). bookshelf_links ol = Inr []) \<and> table_links d = Inr [])",
       OF _ r], goal_cases)
    case (1 rec n i s)
    show ?case
    proof
      assume all: "\<forall>j\<ge>i. \<exists>d. n firstFloorURL j = Loaded d
          \<and> (\<forall>ol\<in>set (bookshelves d). bookshelf_links ol = Inr []) \<and> table_links d = Inr []"
      then obtain d where d: "n firstFloorURL i = Loaded d"
        "\<forall>ol\<in>set (bookshelves d). bookshelf_links ol = Inr []" "table_links d = Inr []"
        by blast
      from 1(2) have "rec n (Suc i) = Some s"
        by (simp add: d(1,3) empty_shelves [OF d(2)] getBooks_Nil)
      then have "\<not> (\<forall>j\<ge>Suc i. \<exists>d. n firstFloorURL j = Loaded d
          \<and> (\<forall>ol\<in>set (bookshelves d). bookshelf_links ol = Inr []) \<and> table_links d = Inr [])"
        by (rule 1(1))
      with all show False by (meson Suc_leD)
    qed
  qed
  with assms show False by simp
qed

text \<open>A TypeError of a shelf is the rejection of the first floor's first phase.\<close>

lemma all_links_Inl:
  "all_links rs = Inl e \<Longrightarrow> \<exists>e'. Inl e' \<in> set rs"
  by (induction rs arbitrary: e) (auto split: sum.splits)

lemma shelves_links_TypeError:
  assumes "shelves_links d = Inl e"
  shows "promise_all (map (getBookshelf net) (bookshelves d)) = Some (Inl TypeError)"
proof -
  from assms obtain e' where "Inl e' \<in> set (map bookshelf_links (bookshelves d))"
    unfolding shelves_links_def by (blast dest: all_links_Inl)
  then obtain ol where ol: "ol \<in> set (bookshelves d)" "bookshelf_links ol = Inl e'"
    by (metis (no_types) imageE list.set_map)
  then have "e' = TypeError"
    by (simp add: bookshelf_links_def collect_links_eq split: if_splits)
  with ol have "getBookshelf net ol = Some (Inl TypeError)"
    by (simp add: getBookshelf_def)
  with ol(1) have "list_ex (rejected_with TypeError) (map (getBookshelf net) (bookshelves d))"
    by (auto simp: list_ex_iff intro!: bexI [of _ ol])
  then show ?thesis
    by (simp add: promise_all_def)
qed

section \<open>The example wiki, evaluated\<close>

lemmas url_defs = firstFloorURL_def secondFloorURL_def thirdFloorURL_def HOMEPAGE_def js_def

lemma library_floors:
  "library_with s firstFloorURL k =
     Loaded (floor_page [shelf [anchor ''/wiki/A'', anchor ''/wiki/File:A.png''],
                         shelf [anchor ''/wiki/B'']]
                        [anchor ''/wiki/C''])"
  "library_with s secondFloorURL k = Loaded s"
  "library_with s thirdFloorURL k =
     Loaded (table_page [anchor ''/wiki/Treasure_Hunter'', anchor ''/wiki/E''])"
  by (simp_all add: library_with_def) (simp_all add: url_defs)

lemma library_pages:
  "h \<in> {js ''/wiki/A'', js ''/wiki/B'', js ''/wiki/C'', js ''/wiki/D'', js ''/wiki/E''} \<Longrightarrow>
     library_with s (HOMEPAGE @ h) k = Loaded (library_page h)"
  by (auto simp: library_with_def library_page_def) (simp_all add: url_defs)

lemma library_titles:
  "h \<in> {js ''/wiki/A'', js ''/wiki/B'', js ''/wiki/C'', js ''/wiki/D'', js ''/wiki/E''} \<Longrightarrow>
     page_title (library_page h) \<noteq> []"
  by (auto simp: library_page_def page_defs HOMEPAGE_def)

lemma library_books:
  "book_of_page (library_page (js ''/wiki/A'')) = library_book ''/wiki/A''"
  "book_of_page (library_page (js ''/wiki/B'')) = library_book ''/wiki/B''"
  "book_of_page (library_page (js ''/wiki/C'')) = library_book ''/wiki/C''"
  "book_of_page (library_page (js ''/wiki/D'')) = library_book ''/wiki/D''"
  "book_of_page (library_page (js ''/wiki/E'')) = library_book ''/wiki/E''"
  by (simp_all add: library_page_def library_book_def page_defs HOMEPAGE_def)

lemma library_first_floor_links:
  "map bookshelf_links (bookshelves
       (floor_page [shelf [anchor ''/wiki/A'', anchor ''/wiki/File:A.png''],
                    shelf [anchor ''/wiki/B'']]
                   [anchor ''/wiki/C'']))
     = map Inr [[js ''/wiki/A''], [js ''/wiki/B'']]"
  "table_links (floor_page [shelf [anchor ''/wiki/A'', anchor ''/wiki/File:A.png''],
                            shelf [anchor ''/wiki/B'']]
                           [anchor ''/wiki/C''])
     = Inr [js ''/wiki/C'']"
  by (simp_all add: bookshelves_def select_output_child_def floor_page_def listing_defs)

lemma library_second_floor_links:
  "table_links (table_page [anchor ''/wiki/D'', anchor ''#top'']) = Inr [js ''/wiki/D'']"
  "table_links (table_page [anchor ''/wiki/File:D.png'']) = Inr []"
  by (simp_all add: listing_defs)

lemma library_first_floor:
  "getFirstFloor (library_with s) 0
     = Some (Inr (map library_book [''/wiki/A'', ''/wiki/B'', ''/wiki/C'']))"
proof -
  have "getFirstFloor (library_with s) 0
      = Some (Inr (map (\<lambda>h. book_of_page (library_page h))
          (concat [[js ''/wiki/A''], [js ''/wiki/B'']] @ [js ''/wiki/C''])))"
    by (rule getFirstFloor_valid [where net = "library_with s" and pg = library_page,
          OF library_floors(1) library_first_floor_links])
      (auto simp: library_pages library_titles)
  then show ?thesis by (simp add: library_books)
qed

lemma library_second_floor:
  "getSecondFloor library 0 = Some (Inr [library_book ''/wiki/D''])"
proof -
  have "getSecondFloor library 0
      = Some (Inr (map (\<lambda>h. book_of_page (library_page h)) [js ''/wiki/D'']))"
    unfolding library_def
    by (rule getSecondFloor_valid [where net = "library_with s" and pg = library_page for s,
          OF library_floors(2) library_second_floor_links(1)])
      (auto simp: library_pages library_titles)
  then show ?thesis by (simp add: library_books)
qed

lemma library_third_floor:
  "getThirdFloor (library_with s) 0 = Some (Inr [library_book ''/wiki/E''])"
proof -
  have "getThirdFloor (library_with s) 0
      = Some (Inr (map (\<lambda>h. book_of_page (library_page h)) [js ''/wiki/E'']))"
    by (rule getThirdFloor_valid [where net = "library_with s" and pg = library_page,
          OF library_floors(3) third_floor_links_example])
      (auto simp: library_pages library_titles)
  then show ?thesis by (simp add: library_books)
qed

lemma empty_page_links:
  "bookshelves [] = []" "table_links [] = Inr []" "third_floor_links [] = Inr []"
  by (simp_all add: bookshelves_def select_output_child_def table_links_def
      third_floor_links_def select_table_a_def)

lemma late_library_floors:
  "late_library firstFloorURL 0 = Loaded []"
  "late_library secondFloorURL 0 = Loaded []"
  "late_library thirdFloorURL 0 = Loaded []"
  "late_library firstFloorURL (Suc 0) =
     Loaded (floor_page [shelf [anchor ''/wiki/A'', anchor ''/wiki/File:A.png''],
                         shelf [anchor ''/wiki/B'']]
                        [anchor ''/wiki/C''])"
  "late_library secondFloorURL (Suc 0) = Loaded (table_page [anchor ''/wiki/D'', anchor ''#top''])"
  "late_library thirdFloorURL (Suc 0) =
     Loaded (table_page [anchor ''/wiki/Treasure_Hunter'', anchor ''/wiki/E''])"
  by (simp_all add: late_library_def library_def library_floors)

lemma late_library_pages:
  assumes "h \<in> {js ''/wiki/A'', js ''/wiki/B'', js ''/wiki/C'', js ''/wiki/D'', js ''/wiki/E''}"
  shows "late_library (HOMEPAGE @ h) 0 = Loaded (library_page h)"
proof -
  have "HOMEPAGE @ h \<notin> {firstFloorURL, secondFloorURL, thirdFloorURL}"
    using assms by (auto simp: url_defs)
  then show ?thesis
    by (simp add: late_library_def library_def library_pages [OF assms])
qed

lemma late_library_books:
  "promise_all (map (getBookshelf late_library) (bookshelves
       (floor_page [shelf [anchor ''/wiki/A'', anchor ''/wiki/File:A.png''],
                    shelf [anchor ''/wiki/B'']]
                   [anchor ''/wiki/C''])))
     = Some (Inr [[library_book ''/wiki/A''], [library_book ''/wiki/B'']])"
  "getBooks late_library [js ''/wiki/C''] = Some (Inr [library_book ''/wiki/C''])"
  "getBooks late_library [js ''/wiki/D''] = Some (Inr [library_book ''/wiki/D''])"
  "getBooks late_library [js ''/wiki/E''] = Some (Inr [library_book ''/wiki/E''])"
proof -
  have "promise_all (map (getBookshelf late_library) (bookshelves
       (floor_page [shelf [anchor ''/wiki/A'', anchor ''/wiki/File:A.png''],
                    shelf [anchor ''/wiki/B'']]
                   [anchor ''/wiki/C''])))
     = Some (Inr (map (map (\<lambda>h. book_of_page (library_page h)))
         [[js ''/wiki/A''], [js ''/wiki/B'']]))"
    by (rule shelves_valid [where net = late_library and pg = library_page,
          OF library_first_floor_links(1)])
      (auto simp: late_library_pages library_titles)
  then show "promise_all (map (getBookshelf late_library) (bookshelves
       (floor_page [shelf [anchor ''/wiki/A'', anchor ''/wiki/File:A.png''],
                    shelf [anchor ''/wiki/B'']]
                   [anchor ''/wiki/C''])))
     = Some (Inr [[library_book ''/wiki/A''], [library_book ''/wiki/B'']])"
    by (simp add: library_books)
  have one: "getBooks late_library [h] = Some (Inr [book_of_page (library_page h)])"
    if "h \<in> {js ''/wiki/A'', js ''/wiki/B'', js ''/wiki/C'', js ''/wiki/D'', js ''/wiki/E''}"
    for h
    using getBooks_valid [where net = late_library and pg = library_page and hs = "[h]"]
      late_library_pages [OF that] library_titles [OF that]
    by simp
  show "getBooks late_library [js ''/wiki/C''] = Some (Inr [library_book ''/wiki/C''])"
    "getBooks late_library [js ''/wiki/D''] = Some (Inr [library_book ''/wiki/D''])"
    "getBooks late_library [js ''/wiki/E''] = Some (Inr [library_book ''/wiki/E''])"
    by (simp_all add: one library_books)
qed

lemma broken_second_links:
  "table_links (table_page [anchor ''/wiki/D'', Element (js ''a'') [] None [Text (js ''top'')]])
     = Inl TypeError"
  by (simp add: listing_defs)

lemma getSecondFloor_TypeError:
  "net secondFloorURL k = Loaded d \<Longrightarrow> table_links d = Inl e \<Longrightarrow>
     getSecondFloor net k = Some (Inl e)"
  by (subst getSecondFloor.simps) simp

section \<open>Properties of getBook\<close>

text \<open>
  C1, as amended. Every Book that getBook returns has a title that is not empty and at
  least one location. (A location itself may be the empty text.)
\<close>

theorem getBook_returns_titled_book:
  "getBook net url k = Some (Inr b) \<Longrightarrow> title b \<noteq> [] \<and> 1 \<le> length (locations b)"
  by (drule getBook_result) (simp add: Suc_le_eq)

theorem getBook_returns_titled_book_witness:
  "getBook (always (book_page (js ''The Lusty Argonian Maid'')
       [el ''p'' [] [Text (js '' Sold by ''), el ''b'' [] [Text (js ''Latoria'')], Comment (js ''x'')]]))
     (js ''/wiki/The_Lusty_Argonian_Maid'') 0
     = Some (Inr \<lparr>title = js ''The Lusty Argonian Maid'', locations = [js ''Sold by Latoria'']\<rparr>)
   \<and> title \<lparr>title = js ''The Lusty Argonian Maid'', locations = [js ''Sold by Latoria'']\<rparr> \<noteq> []
   \<and> 1 \<le> length (locations \<lparr>title = js ''The Lusty Argonian Maid'', locations = [js ''Sold by Latoria'']\<rparr>)"
proof -
  let ?d = "book_page (js ''The Lusty Argonian Maid'')
       [el ''p'' [] [Text (js '' Sold by ''), el ''b'' [] [Text (js ''Latoria'')], Comment (js ''x'')]]"
  have run: "getBook (always ?d) (js ''/wiki/The_Lusty_Argonian_Maid'') 0
      = Some (Inr \<lparr>title = js ''The Lusty Argonian Maid'', locations = [js ''Sold by Latoria'']\<rparr>)"
    unfolding book_of_paragraph_page [symmetric]
    by (rule getBook_valid) (simp_all add: always_def book_of_paragraph_page, simp add: js_def)
  from run getBook_returns_titled_book [OF run] show ?thesis by simp
qed

text \<open>
  C1, as the specification states it, fails: a list item without text gives a Book with
  an empty location.
\<close>

theorem getBook_empty_location_counterexample:
  "getBook (always (book_page (js '' Lost Legends '')
       [Text (js '' ''), el ''ul'' [] [el ''li'' [] [Text (js '' Chest '')], el ''li'' [] []]]))
     (js ''/wiki/Lost_Legends'') 0
     = Some (Inr \<lparr>title = js ''Lost Legends'', locations = [js ''Chest'', []]\<rparr>)
   \<and> \<not> Record_invariant \<lparr>title = js ''Lost Legends'', locations = [js ''Chest'', []]\<rparr>"
proof -
  let ?d = "book_page (js '' Lost Legends '')
       [Text (js '' ''), el ''ul'' [] [el ''li'' [] [Text (js '' Chest '')], el ''li'' [] []]]"
  have "getBook (always ?d) (js ''/wiki/Lost_Legends'') 0
      = Some (Inr \<lparr>title = js ''Lost Legends'', locations = [js ''Chest'', []]\<rparr>)"
    unfolding book_of_list_page [symmetric]
    by (rule getBook_valid) (simp_all add: always_def book_of_list_page, simp add: js_def)
  then show ?thesis by (simp add: Record_invariant_def)
qed

text \<open>
  C2, as amended. getBook surfaces a transport error: when the request is rejected,
  getBook rejects with that error and does not restart; when the request never settles,
  neither does getBook. Only a page that was fetched and whose trimmed title is empty
  makes getBook restart the extraction for the same URL; a fetched page with a title
  makes it return the Book of that page.
\<close>

theorem getBook_surfaces_rejection:
  "(net url k = Rejected \<longrightarrow> getBook net url k = Some (Inl RequestFailed))
   \<and> (net url k = Pending \<longrightarrow> getBook net url k = None)
   \<and> (net url k = Loaded d \<and> page_title d = [] \<longrightarrow>
        getBook net url k = getBook net url (Suc k))
   \<and> (net url k = Loaded d \<and> page_title d \<noteq> [] \<longrightarrow>
        getBook net url k =
          Some (Inr \<lparr>title = page_title d,
                     locations = page_locations (page_acquisition d (page_title d))\<rparr>))"
  by (simp add: getBook_Rejected getBook_Pending getBook_Loaded [where d = d] book_of_page_def)

theorem getBook_surfaces_rejection_witness:
  "answers [Loaded [], Loaded (book_page (js ''A'') [el ''p'' [] [Text (js '' '')]]), Rejected]
     (js ''/wiki/A'') 2 = Rejected
   \<and> getBook (answers
        [Loaded [], Loaded (book_page (js ''A'') [el ''p'' [] [Text (js '' '')]]), Rejected])
     (js ''/wiki/A'') 2 = Some (Inl RequestFailed)
   \<and> answers [Loaded [], Loaded (book_page (js ''A'') [el ''p'' [] [Text (js '' '')]]), Rejected]
     (js ''/wiki/A'') 3 = Pending
   \<and> getBook (answers
        [Loaded [], Loaded (book_page (js ''A'') [el ''p'' [] [Text (js '' '')]]), Rejected])
     (js ''/wiki/A'') 3 = None
   \<and> answers [Loaded [], Loaded (book_page (js ''A'') [el ''p'' [] [Text (js '' '')]]), Rejected]
     (js ''/wiki/A'') 0 = Loaded []
   \<and> page_title [] = []
   \<and> answers [Loaded [], Loaded (book_page (js ''A'') [el ''p'' [] [Text (js '' '')]]), Rejected]
     (js ''/wiki/A'') 1 = Loaded (book_page (js ''A'') [el ''p'' [] [Text (js '' '')]])
   \<and> page_title (book_page (js ''A'') [el ''p'' [] [Text (js '' '')]]) = js ''A''
   \<and> js ''A'' \<noteq> []
   \<and> getBook (answers
        [Loaded [], Loaded (book_page (js ''A'') [el ''p'' [] [Text (js '' '')]]), Rejected])
     (js ''/wiki/A'') 1 = Some (Inr \<lparr>title = js ''A'', locations = [[]]\<rparr>)
   \<and> getBook (answers
        [Loaded [], Loaded (book_page (js ''A'') [el ''p'' [] [Text (js '' '')]]), Rejected])
     (js ''/wiki/A'') 0 = Some (Inr \<lparr>title = js ''A'', locations = [[]]\<rparr>)"
proof -
  let ?d = "book_page (js ''A'') [el ''p'' [] [Text (js '' '')]]"
  let ?net = "answers [Loaded [], Loaded ?d, Rejected]"
  let ?u = "js ''/wiki/A''"
  have a: "?net ?u 2 = Rejected" and b: "?net ?u 3 = Pending" and c: "?net ?u 0 = Loaded []"
    and d: "?net ?u 1 = Loaded ?d"
    by (simp_all add: answers_def)
  have t: "page_title ?d = js ''A''" and n: "js ''A'' \<noteq> []"
    and l: "page_locations (page_acquisition ?d (js ''A'')) = [[]]"
    by (simp_all add: bare_page_parts js_not_Nil page_locations_eq)
  from a b c d t n l page_title_empty
    getBook_surfaces_rejection [of ?net ?u 2]
    getBook_surfaces_rejection [of ?net ?u 3]
    getBook_surfaces_rejection [of ?net ?u 0 "[]"]
    getBook_surfaces_rejection [of ?net ?u 1 ?d]
  show ?thesis by simp
qed

text \<open>
  C2, as the specification states it, fails: a rejected request ends getBook with the
  error, where an empty page in its place makes getBook go on to the next answer.
\<close>

theorem getBook_rejects_counterexample:
  "getBook (answers [Rejected, Loaded (book_page (js ''A'') [el ''p'' [] [Text (js '' '')]])])
     (js ''/wiki/A'') 0 = Some (Inl RequestFailed)
   \<and> getBook (answers [Loaded [], Loaded (book_page (js ''A'') [el ''p'' [] [Text (js '' '')]])])
     (js ''/wiki/A'') 0 = Some (Inr \<lparr>title = js ''A'', locations = [[]]\<rparr>)"
proof -
  let ?d = "book_page (js ''A'') [el ''p'' [] [Text (js '' '')]]"
  let ?u = "js ''/wiki/A''"
  have "getBook (answers [Rejected, Loaded ?d]) ?u 0 = Some (Inl RequestFailed)"
    by (rule getBook_Rejected) (simp add: answers_def)
  moreover have "getBook (answers [Loaded [], Loaded ?d]) ?u 0
      = getBook (answers [Loaded [], Loaded ?d]) ?u (Suc 0)"
    by (simp add: getBook_Loaded [where d = "[]"] answers_def page_title_empty)
  moreover have "getBook (answers [Loaded [], Loaded ?d]) ?u (Suc 0)
      = Some (Inr \<lparr>title = js ''A'', locations = [[]]\<rparr>)"
    unfolding book_of_bare_page [symmetric]
    by (rule getBook_valid) (simp_all add: answers_def book_of_bare_page, simp add: js_def)
  ultimately show ?thesis by simp
qed

text \<open>
  C3. For a fetched page with a title, getBook returns the Book whose locations are the
  trimmed texts of the list items that are children of the acquisition block, in
  document order, when there are such items, and otherwise the one trimmed text of the
  whole block.
\<close>

theorem getBook_locations:
  assumes "net url k = Loaded d" and "page_title d \<noteq> []"
  shows "getBook net url k =
     Some (Inr \<lparr>title = page_title d,
                locations =
                  (let acquisition = map fst (page_acquisition d (page_title d));
                       lis = children_tag ''li'' acquisition
                   in if lis = [] then [trim (text_of acquisition)]
                      else map (\<lambda>li. trim (textContent li)) lis)\<rparr>)"
  using assms
  by (simp add: getBook_Loaded [where d = d] book_of_page_def page_locations_eq Let_def)

theorem getBook_locations_witness:
  "getBook (always (book_page (js '' Lost Legends '')
       [Text (js '' ''), el ''ul'' [] [el ''li'' [] [Text (js '' Chest '')], el ''li'' [] []]]))
     (js ''/wiki/Lost_Legends'') 0
     = Some (Inr \<lparr>title = js ''Lost Legends'', locations = [js ''Chest'', []]\<rparr>)
   \<and> getBook (always (book_page (js ''The Lusty Argonian Maid'')
       [el ''p'' [] [Text (js '' Sold by ''), el ''b'' [] [Text (js ''Latoria'')], Comment (js ''x'')]]))
     (js ''/wiki/The_Lusty_Argonian_Maid'') 0
     = Some (Inr \<lparr>title = js ''The Lusty Argonian Maid'', locations = [js ''Sold by Latoria'']\<rparr>)"
proof -
  let ?d = "book_page (js '' Lost Legends '')
       [Text (js '' ''), el ''ul'' [] [el ''li'' [] [Text (js '' Chest '')], el ''li'' [] []]]"
  let ?e = "book_page (js ''The Lusty Argonian Maid'')
       [el ''p'' [] [Text (js '' Sold by ''), el ''b'' [] [Text (js ''Latoria'')], Comment (js ''x'')]]"
  have d: "always ?d (js ''/wiki/Lost_Legends'') 0 = Loaded ?d"
    and e: "always ?e (js ''/wiki/The_Lusty_Argonian_Maid'') 0 = Loaded ?e"
    by (simp_all add: always_def)
  have td: "page_title ?d \<noteq> []" and te: "page_title ?e \<noteq> []"
    by (simp_all add: list_page_parts paragraph_page_parts js_not_Nil)
  show ?thesis
    using getBook_locations [of "always ?d" _ 0 ?d, OF d td]
      getBook_locations [of "always ?e" _ 0 ?e, OF e te]
    by (simp add: list_page_parts paragraph_page_parts trim_chest Let_def)
qed

text \<open>
  C4. The acquisition block is the second of the elements that follow the first
  second-level heading of the content block when the title is Treasure Map XXI, and the
  first of them for every other title.
\<close>

theorem acquisition_skips_for_treasure_map:
  "map fst (page_acquisition d t) =
     take 1 (drop (if t = js ''Treasure Map XXI'' then 1 else 0) (elements_after_heading d))"
  by (rule acquisition_elements)

theorem acquisition_skips_for_treasure_map_witness:
  "map fst (page_acquisition (book_page (js ''Treasure Map XXI'')
       [el ''figure'' [] [Text (js ''map'')], el ''ul'' [] [el ''li'' [] [Text (js ''Deepholme'')]]])
       (js ''Treasure Map XXI''))
     = [el ''ul'' [] [el ''li'' [] [Text (js ''Deepholme'')]]]
   \<and> map fst (page_acquisition (book_page (js ''Treasure Map XX'')
       [el ''figure'' [] [Text (js ''map'')], el ''ul'' [] [el ''li'' [] [Text (js ''Deepholme'')]]])
       (js ''Treasure Map XX''))
     = [el ''figure'' [] [Text (js ''map'')]]
   \<and> getBook (always (book_page (js ''Treasure Map XXI'')
       [el ''figure'' [] [Text (js ''map'')], el ''ul'' [] [el ''li'' [] [Text (js ''Deepholme'')]]]))
       (js ''/wiki/Treasure_Map_XXI'') 0
     = Some (Inr \<lparr>title = js ''Treasure Map XXI'', locations = [js ''Deepholme'']\<rparr>)
   \<and> getBook (always (book_page (js ''Treasure Map XX'')
       [el ''figure'' [] [Text (js ''map'')], el ''ul'' [] [el ''li'' [] [Text (js ''Deepholme'')]]]))
       (js ''/wiki/Treasure_Map_XX'') 0
     = Some (Inr \<lparr>title = js ''Treasure Map XX'', locations = [js ''map'']\<rparr>)"
proof -
  let ?block = "[el ''figure'' [] [Text (js ''map'')], el ''ul'' [] [el ''li'' [] [Text (js ''Deepholme'')]]]"
  have ne: "js ''Treasure Map XX'' \<noteq> js ''Treasure Map XXI''"
    by (simp add: js_def)
  have a: "getBook (always (book_page (js ''Treasure Map XXI'') ?block)) (js ''/wiki/Treasure_Map_XXI'') 0
      = Some (Inr \<lparr>title = js ''Treasure Map XXI'', locations = [js ''Deepholme'']\<rparr>)"
    unfolding book_of_treasure_map [symmetric]
    by (rule getBook_valid) (simp_all add: always_def book_of_treasure_map js_not_Nil)
  have b: "getBook (always (book_page (js ''Treasure Map XX'') ?block)) (js ''/wiki/Treasure_Map_XX'') 0
      = Some (Inr \<lparr>title = js ''Treasure Map XX'', locations = [js ''map'']\<rparr>)"
    unfolding book_of_other_map [symmetric]
    by (rule getBook_valid) (simp_all add: always_def book_of_other_map js_not_Nil)
  from ne a b show ?thesis
    using acquisition_skips_for_treasure_map [of "book_page (js ''Treasure Map XXI'') ?block"
         "js ''Treasure Map XXI''"]
      acquisition_skips_for_treasure_map [of "book_page (js ''Treasure Map XX'') ?block"
         "js ''Treasure Map XX''"]
    by (simp add: treasure_map_siblings)
qed

text \<open>
  C10. The locations that lines 40 to 46 compute are never an empty array. So for a
  fetched page getBook restarts exactly when the trimmed title is empty, and returns the
  Book otherwise; when the title is not empty and the acquisition block has no list item
  and no text but white space, that Book has the empty text as its one location.
\<close>

theorem getBook_retries_iff_title_empty:
  "length (page_locations a) \<noteq> 0
   \<and> (net url k = Loaded d \<longrightarrow>
        getBook net url k =
          (if page_title d = [] then getBook net url (Suc k)
           else Some (Inr \<lparr>title = page_title d,
                           locations = page_locations (page_acquisition d (page_title d))\<rparr>)))
   \<and> (net url k = Loaded d \<and> page_title d \<noteq> []
        \<and> children_tag ''li'' (map fst (page_acquisition d (page_title d))) = []
        \<and> trim (text_of (map fst (page_acquisition d (page_title d)))) = [] \<longrightarrow>
        getBook net url k = Some (Inr \<lparr>title = page_title d, locations = [[]]\<rparr>))"
  by (simp add: page_locations_nonempty getBook_Loaded [where d = d] book_of_page_def
      page_locations_eq)

theorem getBook_retries_iff_title_empty_witness:
  "always (book_page (js ''A'') [el ''p'' [] [Text (js '' '')]]) (js ''/wiki/A'') 0
     = Loaded (book_page (js ''A'') [el ''p'' [] [Text (js '' '')]])
   \<and> page_title (book_page (js ''A'') [el ''p'' [] [Text (js '' '')]]) = js ''A''
   \<and> js ''A'' \<noteq> []
   \<and> getBook (always (book_page (js ''A'') [el ''p'' [] [Text (js '' '')]])) (js ''/wiki/A'') 0
     = Some (Inr \<lparr>title = js ''A'', locations = [[]]\<rparr>)
   \<and> answers [Loaded []] (js ''/wiki/A'') 0 = Loaded []
   \<and> getBook (answers [Loaded []]) (js ''/wiki/A'') 0
     = getBook (answers [Loaded []]) (js ''/wiki/A'') (Suc 0)"
proof -
  let ?d = "book_page (js ''A'') [el ''p'' [] [Text (js '' '')]]"
  have d: "always ?d (js ''/wiki/A'') 0 = Loaded ?d"
    by (simp add: always_def)
  have e: "answers [Loaded []] (js ''/wiki/A'') 0 = Loaded []"
    by (simp add: answers_def)
  show ?thesis
    using d e
      getBook_retries_iff_title_empty [of "[]" "always ?d" "js ''/wiki/A''" 0 ?d]
      getBook_retries_iff_title_empty [of "[]" "answers [Loaded []]" "js ''/wiki/A''" 0 "[]"]
    by (simp add: bare_page_parts page_title_empty js_not_Nil page_locations_eq)
qed

section \<open>Properties of the link collectors\<close>

text \<open>
  C5. A shelf, the article tables of the first and second floor and the article tables
  of the third floor give only hrefs that start with \<open>/wiki/\<close> and have no dot in
  them.
\<close>

theorem collected_hrefs_are_wiki_paths:
  "(bookshelf_links ol = Inr hs \<longrightarrow>
      (\<forall>h\<in>set hs. startsWith h (js ''/wiki/'') \<and> \<not> js_includes h (js ''.'')
          \<and> of_char (CHR ''.'') \<notin> set h))
   \<and> (table_links d = Inr hs \<longrightarrow>
      (\<forall>h\<in>set hs. startsWith h (js ''/wiki/'') \<and> \<not> js_includes h (js ''.'')
          \<and> of_char (CHR ''.'') \<notin> set h))
   \<and> (third_floor_links d = Inr hs \<longrightarrow>
      (\<forall>h\<in>set hs. startsWith h (js ''/wiki/'') \<and> \<not> js_includes h (js ''.'')
          \<and> of_char (CHR ''.'') \<notin> set h))"
proof -
  have dot: "js_includes h (js ''.'') \<longleftrightarrow> of_char (CHR ''.'') \<in> set h" for h
    by (simp add: js_def js_includes_single)
  have "is_book_href h \<Longrightarrow> startsWith h (js ''/wiki/'') \<and> \<not> js_includes h (js ''.'')
      \<and> of_char (CHR ''.'') \<notin> set h" for h
    by (simp add: is_book_href_def dot)
  moreover have "is_book_href3 h \<Longrightarrow> is_book_href h" for h
    by (simp add: is_book_href_def is_book_href3_def)
  ultimately show ?thesis
    unfolding bookshelf_links_def table_links_def third_floor_links_def
    by (blast dest: collect_links_accepts)
qed

theorem collected_hrefs_are_wiki_paths_witness:
  "bookshelf_links (shelf [anchor ''/wiki/A'', anchor ''/wiki/File:A.png'', anchor ''/wiki/B''])
     = Inr [js ''/wiki/A'', js ''/wiki/B'']
   \<and> table_links (table_page [anchor ''/wiki/B'', anchor ''#top'', anchor ''/wiki/A''])
     = Inr [js ''/wiki/B'', js ''/wiki/A'']
   \<and> third_floor_links (table_page [anchor ''/wiki/Treasure_Hunter'', anchor ''/wiki/E''])
     = Inr [js ''/wiki/E'']
   \<and> startsWith (js ''/wiki/A'') (js ''/wiki/'') \<and> \<not> js_includes (js ''/wiki/A'') (js ''.'')
   \<and> of_char (CHR ''.'') \<notin> set (js ''/wiki/A'')
   \<and> startsWith (js ''/wiki/B'') (js ''/wiki/'') \<and> \<not> js_includes (js ''/wiki/B'') (js ''.'')
   \<and> of_char (CHR ''.'') \<notin> set (js ''/wiki/B'')
   \<and> startsWith (js ''/wiki/E'') (js ''/wiki/'') \<and> \<not> js_includes (js ''/wiki/E'') (js ''.'')
   \<and> of_char (CHR ''.'') \<notin> set (js ''/wiki/E'')"
  using shelf_links_example table_links_example third_floor_links_example
    collected_hrefs_are_wiki_paths
      [of "shelf [anchor ''/wiki/A'', anchor ''/wiki/File:A.png'', anchor ''/wiki/B'']"
          "[js ''/wiki/A'', js ''/wiki/B'']"
          "table_page [anchor ''/wiki/Treasure_Hunter'', anchor ''/wiki/E'']"]
    collected_hrefs_are_wiki_paths
      [of _ "[js ''/wiki/B'', js ''/wiki/A'']"
          "table_page [anchor ''/wiki/B'', anchor ''#top'', anchor ''/wiki/A'']"]
    collected_hrefs_are_wiki_paths
      [of _ "[js ''/wiki/E'']"
          "table_page [anchor ''/wiki/Treasure_Hunter'', anchor ''/wiki/E'']"]
  by simp

text \<open>
  C6. The Treasure Hunter article is never among the links of the third floor: no href
  that the third floor collects contains \<open>/wiki/Treasure_Hunter\<close>.
\<close>

theorem third_floor_leaves_out_treasure_hunter:
  "third_floor_links d = Inr hs \<Longrightarrow>
     js ''/wiki/Treasure_Hunter'' \<notin> set hs
     \<and> (\<forall>h\<in>set hs. \<not> js_includes h (js ''/wiki/Treasure_Hunter''))"
proof -
  assume "third_floor_links d = Inr hs"
  then have "\<forall>h\<in>set hs. \<not> js_includes h (js ''/wiki/Treasure_Hunter'')"
    unfolding third_floor_links_def
    by (auto dest: collect_links_accepts simp: is_book_href3_def)
  then show ?thesis
    using js_includes_refl by blast
qed

theorem third_floor_leaves_out_treasure_hunter_witness:
  "table_links (table_page [anchor ''/wiki/Treasure_Hunter'', anchor ''/wiki/E''])
     = Inr [js ''/wiki/Treasure_Hunter'', js ''/wiki/E'']
   \<and> third_floor_links (table_page [anchor ''/wiki/Treasure_Hunter'', anchor ''/wiki/E''])
     = Inr [js ''/wiki/E'']
   \<and> js ''/wiki/Treasure_Hunter'' \<notin> set [js ''/wiki/E'']
   \<and> \<not> js_includes (js ''/wiki/E'') (js ''/wiki/Treasure_Hunter'')"
  using table_links_treasure_hunter
    third_floor_leaves_out_treasure_hunter [OF third_floor_links_example]
  by (simp add: third_floor_links_example)




section \<open>Properties of the floors and the driver\<close>

text \<open>
  C7, as amended. Let the first answers for the three floors be pages on which every
  anchor that the collectors read has an href, with shelves and table of the first
  floor yielding N1 links, the second floor N2 and the third N3, each of N1, N2 and N3
  at least one, and let the first answer for every one of these links be an item page
  with a title. Then the array that main serialises has N1 + N2 + N3 Books: those of
  the first floor's shelves, in document order, then those of its table, then those of
  the second floor, then those of the third.
\<close>

theorem main_concatenates_floors:
  assumes "net firstFloorURL 0 = Loaded d1"
    and "net secondFloorURL 0 = Loaded d2"
    and "net thirdFloorURL 0 = Loaded d3"
    and "map bookshelf_links (bookshelves d1) = map Inr shelves"
    and "table_links d1 = Inr table1"
    and "table_links d2 = Inr links2"
    and "third_floor_links d3 = Inr links3"
    and "\<forall>h \<in> set (concat shelves @ table1 @ links2 @ links3).
           net (HOMEPAGE @ h) 0 = Loaded (pg h) \<and> page_title (pg h) \<noteq> []"
    and "concat shelves @ table1 \<noteq> []" and "links2 \<noteq> []" and "links3 \<noteq> []"
  shows "main net
       = Some (Inr (map (\<lambda>h. book_of_page (pg h)) (concat shelves @ table1 @ links2 @ links3)))
     \<and> length (map (\<lambda>h. book_of_page (pg h)) (concat shelves @ table1 @ links2 @ links3))
       = length (concat shelves @ table1) + length links2 + length links3"
proof -
  have 1: "getFirstFloor net 0
      = Some (Inr (map (\<lambda>h. book_of_page (pg h)) (concat shelves @ table1)))"
    using assms(1,4,5) _ assms(9) by (rule getFirstFloor_valid) (use assms(8) in auto)
  have 2: "getSecondFloor net 0 = Some (Inr (map (\<lambda>h. book_of_page (pg h)) links2))"
    using assms(2,6) _ assms(10) by (rule getSecondFloor_valid) (use assms(8) in auto)
  have 3: "getThirdFloor net 0 = Some (Inr (map (\<lambda>h. book_of_page (pg h)) links3))"
    using assms(3,7) _ assms(11) by (rule getThirdFloor_valid) (use assms(8) in auto)
  show ?thesis
    by (simp add: main_def 1 2 3)
qed

theorem main_concatenates_floors_witness:
  "map bookshelf_links (bookshelves
       (floor_page [shelf [anchor ''/wiki/A'', anchor ''/wiki/File:A.png''],
                    shelf [anchor ''/wiki/B'']]
                   [anchor ''/wiki/C'']))
     = map Inr [[js ''/wiki/A''], [js ''/wiki/B'']]
   \<and> table_links (floor_page [shelf [anchor ''/wiki/A'', anchor ''/wiki/File:A.png''],
                              shelf [anchor ''/wiki/B'']]
                             [anchor ''/wiki/C''])
     = Inr [js ''/wiki/C'']
   \<and> table_links (table_page [anchor ''/wiki/D'', anchor ''#top'']) = Inr [js ''/wiki/D'']
   \<and> third_floor_links (table_page [anchor ''/wiki/Treasure_Hunter'', anchor ''/wiki/E''])
     = Inr [js ''/wiki/E'']
   \<and> main library
     = Some (Inr (map library_book
         [''/wiki/A'', ''/wiki/B'', ''/wiki/C'', ''/wiki/D'', ''/wiki/E'']))"
proof -
  have valid: "\<forall>h \<in> set (concat [[js ''/wiki/A''], [js ''/wiki/B'']] @ [js ''/wiki/C'']
        @ [js ''/wiki/D''] @ [js ''/wiki/E'']).
      library (HOMEPAGE @ h) 0 = Loaded (library_page h) \<and> page_title (library_page h) \<noteq> []"
    unfolding library_def by (auto simp: library_pages library_titles)
  have f1: "library firstFloorURL 0 =
      Loaded (floor_page [shelf [anchor ''/wiki/A'', anchor ''/wiki/File:A.png''],
                          shelf [anchor ''/wiki/B'']]
                         [anchor ''/wiki/C''])"
    and f2: "library secondFloorURL 0 = Loaded (table_page [anchor ''/wiki/D'', anchor ''#top''])"
    and f3: "library thirdFloorURL 0 =
      Loaded (table_page [anchor ''/wiki/Treasure_Hunter'', anchor ''/wiki/E''])"
    unfolding library_def by (rule library_floors)+
  have "main library
      = Some (Inr (map (\<lambda>h. book_of_page (library_page h))
          (concat [[js ''/wiki/A''], [js ''/wiki/B'']] @ [js ''/wiki/C'']
            @ [js ''/wiki/D''] @ [js ''/wiki/E''])))"
    using main_concatenates_floors
      [where net = library and pg = library_page, OF f1 f2 f3
        library_first_floor_links library_second_floor_links(1) third_floor_links_example
        valid]
    by simp
  then show ?thesis
    by (simp add: library_books library_first_floor_links library_second_floor_links
        third_floor_links_example)
qed

text \<open>
  C7, as the specification states it, fails when a floor yields no link: with a second
  floor whose table holds a file link only, N2 is zero, the first and third floors
  return their Books, and main never has an array to serialise. It fails as well when
  an anchor of a table has no href: main then rejects with the TypeError, though the
  table has a book link beside it.
\<close>

theorem main_hangs_counterexample:
  "table_links (table_page [anchor ''/wiki/File:D.png'']) = Inr []
   \<and> getFirstFloor library_without_second 0
     = Some (Inr (map library_book [''/wiki/A'', ''/wiki/B'', ''/wiki/C'']))
   \<and> getThirdFloor library_without_second 0 = Some (Inr [library_book ''/wiki/E''])
   \<and> main library_without_second = None
   \<and> getFirstFloor library_broken_second 0
     = Some (Inr (map library_book [''/wiki/A'', ''/wiki/B'', ''/wiki/C'']))
   \<and> main library_broken_second = Some (Inl TypeError)"
proof -
  have "getSecondFloor library_without_second 0 = None"
    unfolding library_without_second_def
    by (rule getSecondFloor_never) (simp add: library_floors library_second_floor_links)
  moreover have "getSecondFloor library_broken_second 0 = Some (Inl TypeError)"
    unfolding library_broken_second_def
    by (rule getSecondFloor_TypeError [OF _ broken_second_links]) (rule library_floors)
  ultimately show ?thesis
    by (simp add: main_def library_second_floor_links)
      (simp add: library_without_second_def library_broken_second_def library_first_floor
        library_third_floor)
qed

text \<open>
  C8. No floor returns an empty array. A floor whose Books of one attempt are none goes
  on as its next attempt does, which starts with a new request for the page, and
  otherwise it returns the Books of this attempt; so a floor that finds no book link
  on this and every later attempt never returns.
\<close>

theorem floors_restart_when_empty:
  "(getFirstFloor net k = Some (Inr bs1) \<longrightarrow> bs1 \<noteq> [])
   \<and> (getSecondFloor net k = Some (Inr bs2) \<longrightarrow> bs2 \<noteq> [])
   \<and> (getThirdFloor net k = Some (Inr bs3) \<longrightarrow> bs3 \<noteq> [])
   \<and> (net firstFloorURL k = Loaded d1
        \<and> promise_all (map (getBookshelf net) (bookshelves d1)) = Some (Inr shelves)
        \<and> table_links d1 = Inr hs1 \<and> getBooks net hs1 = Some (Inr table_books) \<longrightarrow>
        getFirstFloor net k =
          (if concat shelves @ table_books = [] then getFirstFloor net (Suc k)
           else Some (Inr (concat shelves @ table_books))))
   \<and> (net secondFloorURL k = Loaded d2 \<and> table_links d2 = Inr hs2
        \<and> getBooks net hs2 = Some (Inr books2) \<longrightarrow>
        getSecondFloor net k =
          (if books2 = [] then getSecondFloor net (Suc k) else Some (Inr books2)))
   \<and> (net thirdFloorURL k = Loaded d3 \<and> third_floor_links d3 = Inr hs3
        \<and> getBooks net hs3 = Some (Inr books3) \<longrightarrow>
        getThirdFloor net k =
          (if books3 = [] then getThirdFloor net (Suc k) else Some (Inr books3)))
   \<and> ((\<forall>j\<ge>k. \<exists>d. net firstFloorURL j = Loaded d
          \<and> (\<forall>ol\<in>set (bookshelves d). bookshelf_links ol = Inr [])
          \<and> table_links d = Inr []) \<longrightarrow>
        getFirstFloor net k = None)
   \<and> ((\<forall>j\<ge>k. \<exists>d. net secondFloorURL j = Loaded d \<and> table_links d = Inr []) \<longrightarrow>
        getSecondFloor net k = None)
   \<and> ((\<forall>j\<ge>k. \<exists>d. net thirdFloorURL j = Loaded d \<and> third_floor_links d = Inr []) \<longrightarrow>
        getThirdFloor net k = None)"
proof (intro conjI impI)
  assume "getFirstFloor net k = Some (Inr bs1)"
  then show "bs1 \<noteq> []" by (rule getFirstFloor_nonempty)
next
  assume "getSecondFloor net k = Some (Inr bs2)"
  then show "bs2 \<noteq> []" by (rule getSecondFloor_nonempty)
next
  assume "getThirdFloor net k = Some (Inr bs3)"
  then show "bs3 \<noteq> []" by (rule getThirdFloor_nonempty)
next
  assume "net firstFloorURL k = Loaded d1
        \<and> promise_all (map (getBookshelf net) (bookshelves d1)) = Some (Inr shelves)
        \<and> table_links d1 = Inr hs1 \<and> getBooks net hs1 = Some (Inr table_books)"
  then show "getFirstFloor net k =
      (if concat shelves @ table_books = [] then getFirstFloor net (Suc k)
       else Some (Inr (concat shelves @ table_books)))"
    using getFirstFloor_step [of net k d1 shelves hs1 table_books] by blast
next
  assume "net secondFloorURL k = Loaded d2 \<and> table_links d2 = Inr hs2
        \<and> getBooks net hs2 = Some (Inr books2)"
  then show "getSecondFloor net k =
      (if books2 = [] then getSecondFloor net (Suc k) else Some (Inr books2))"
    using getSecondFloor_step [of net k d2 hs2 books2] by blast
next
  assume "net thirdFloorURL k = Loaded d3 \<and> third_floor_links d3 = Inr hs3
        \<and> getBooks net hs3 = Some (Inr books3)"
  then show "getThirdFloor net k =
      (if books3 = [] then getThirdFloor net (Suc k) else Some (Inr books3))"
    using getThirdFloor_step [of net k d3 hs3 books3] by blast
next
  assume "\<forall>j\<ge>k. \<exists>d. net firstFloorURL j = Loaded d
          \<and> (\<forall>ol\<in>set (bookshelves d). bookshelf_links ol = Inr [])
          \<and> table_links d = Inr []"
  then show "getFirstFloor net k = None" by (rule getFirstFloor_never)
next
  assume "\<forall>j\<ge>k. \<exists>d. net secondFloorURL j = Loaded d \<and> table_links d = Inr []"
  then show "getSecondFloor net k = None" by (rule getSecondFloor_never)
next
  assume "\<forall>j\<ge>k. \<exists>d. net thirdFloorURL j = Loaded d \<and> third_floor_links d = Inr []"
  then show "getThirdFloor net k = None" by (rule getThirdFloor_never)
qed

theorem floors_restart_when_empty_witness:
  "getFirstFloor library 0 = Some (Inr (map library_book [''/wiki/A'', ''/wiki/B'', ''/wiki/C'']))
   \<and> map library_book [''/wiki/A'', ''/wiki/B'', ''/wiki/C''] \<noteq> []
   \<and> getSecondFloor library 0 = Some (Inr [library_book ''/wiki/D''])
   \<and> [library_book ''/wiki/D''] \<noteq> []
   \<and> getThirdFloor library 0 = Some (Inr [library_book ''/wiki/E''])
   \<and> [library_book ''/wiki/E''] \<noteq> []
   \<and> late_library firstFloorURL 0 = Loaded []
   \<and> late_library secondFloorURL 0 = Loaded []
   \<and> late_library thirdFloorURL 0 = Loaded []
   \<and> table_links [] = Inr [] \<and> third_floor_links [] = Inr [] \<and> bookshelves [] = []
   \<and> getBooks late_library [] = Some (Inr [])
   \<and> getFirstFloor late_library 0 = getFirstFloor late_library (Suc 0)
   \<and> getSecondFloor late_library 0 = getSecondFloor late_library (Suc 0)
   \<and> getThirdFloor late_library 0 = getThirdFloor late_library (Suc 0)
   \<and> getFirstFloor late_library (Suc 0)
     = Some (Inr (map library_book [''/wiki/A'', ''/wiki/B'', ''/wiki/C'']))
   \<and> getSecondFloor late_library (Suc 0) = Some (Inr [library_book ''/wiki/D''])
   \<and> getThirdFloor late_library (Suc 0) = Some (Inr [library_book ''/wiki/E''])
   \<and> getFirstFloor (always []) 0 = None
   \<and> getSecondFloor (always []) 0 = None
   \<and> getThirdFloor (always []) 0 = None"
proof -
  let ?second = "table_page [anchor ''/wiki/D'', anchor ''#top'']"
  have lib: "getFirstFloor library 0
        = Some (Inr (map library_book [''/wiki/A'', ''/wiki/B'', ''/wiki/C'']))"
      "getSecondFloor library 0 = Some (Inr [library_book ''/wiki/D''])"
      "getThirdFloor library 0 = Some (Inr [library_book ''/wiki/E''])"
    unfolding library_def
    by (rule library_first_floor, rule library_second_floor [unfolded library_def],
        rule library_third_floor)
  note nonempty = floors_restart_when_empty
    [where net = library and k = 0
       and ?bs1.0 = "map library_book [''/wiki/A'', ''/wiki/B'', ''/wiki/C'']"
       and ?bs2.0 = "[library_book ''/wiki/D'']" and ?bs3.0 = "[library_book ''/wiki/E'']"]
  have shelves0: "promise_all (map (getBookshelf late_library) (bookshelves [])) = Some (Inr [])"
    by (simp add: empty_page_links promise_all_Nil)
  note restart = floors_restart_when_empty
    [where net = late_library and k = 0 and ?d1.0 = "[]" and shelves = "[]" and ?hs1.0 = "[]"
       and table_books = "[]" and ?d2.0 = "[]" and ?hs2.0 = "[]" and ?books2.0 = "[]"
       and ?d3.0 = "[]" and ?hs3.0 = "[]" and ?books3.0 = "[]"]
  note return = floors_restart_when_empty
    [where net = late_library and k = "Suc 0"
       and ?d1.0 = "floor_page [shelf [anchor ''/wiki/A'', anchor ''/wiki/File:A.png''],
                                shelf [anchor ''/wiki/B'']] [anchor ''/wiki/C'']"
       and shelves = "[[library_book ''/wiki/A''], [library_book ''/wiki/B'']]"
       and ?hs1.0 = "[js ''/wiki/C'']" and table_books = "[library_book ''/wiki/C'']"
       and ?d2.0 = ?second and ?hs2.0 = "[js ''/wiki/D'']"
       and ?books2.0 = "[library_book ''/wiki/D'']"
       and ?d3.0 = "table_page [anchor ''/wiki/Treasure_Hunter'', anchor ''/wiki/E'']"
       and ?hs3.0 = "[js ''/wiki/E'']" and ?books3.0 = "[library_book ''/wiki/E'']"]
  have empty: "\<forall>j\<ge>0. \<exists>d. always [] firstFloorURL j = Loaded d
          \<and> (\<forall>ol\<in>set (bookshelves d). bookshelf_links ol = Inr [])
          \<and> table_links d = Inr []"
      "\<forall>j\<ge>0. \<exists>d. always [] secondFloorURL j = Loaded d \<and> table_links d = Inr []"
      "\<forall>j\<ge>0. \<exists>d. always [] thirdFloorURL j = Loaded d \<and> third_floor_links d = Inr []"
    by (simp_all add: always_def empty_page_links)
  note never = floors_restart_when_empty [where net = "always []" and k = 0]
  have a: "getFirstFloor late_library 0 = getFirstFloor late_library (Suc 0)"
      "getSecondFloor late_library 0 = getSecondFloor late_library (Suc 0)"
      "getThirdFloor late_library 0 = getThirdFloor late_library (Suc 0)"
    using restart shelves0
    by (simp_all add: late_library_floors empty_page_links getBooks_Nil)
  have b: "getFirstFloor late_library (Suc 0)
        = Some (Inr (map library_book [''/wiki/A'', ''/wiki/B'', ''/wiki/C'']))"
      "getSecondFloor late_library (Suc 0) = Some (Inr [library_book ''/wiki/D''])"
      "getThirdFloor late_library (Suc 0) = Some (Inr [library_book ''/wiki/E''])"
    using return
    by (simp_all add: late_library_floors late_library_books library_first_floor_links
        library_second_floor_links third_floor_links_example)
  have c: "getFirstFloor (always []) 0 = None" "getSecondFloor (always []) 0 = None"
      "getThirdFloor (always []) 0 = None"
    using never empty by blast+
  from nonempty lib a b c show ?thesis
    by (simp add: late_library_floors empty_page_links getBooks_Nil)
qed

end
